theory Spec2Isabelle
  imports Main "HOL-Library.AList" "HOL-Library.Word"
begin

section \<open>JavaScript values\<close>

text \<open>
  Everything that travels through \<^verbatim>\<open>postMessage\<close> is a structured-cloneable value;
  functions and symbols cannot be cloned and so never arrive, neither as a value nor as a
  property of one. The values kept here are \<^verbatim>\<open>undefined\<close>, \<^verbatim>\<open>null\<close>, the booleans,
  the strings, the safe integers among the numbers, the arrays that have nothing but
  their elements, and the plain objects with their own properties.

  A safe integer lies between \<open>- (2 ^ 53)\<close> and \<open>2 ^ 53 - 1\<close>: it is a 54-bit signed word,
  read by \<open>sint\<close>. Every such number is exact in JavaScript and prints in plain decimal
  (the exponent form begins at \<open>10 ^ 21\<close>); what \<^verbatim>\<open>Date.now()\<close> returns is one.
\<close>

type_synonym js_int = "54 word"

datatype jsval =
    JUndefined
  | JNull
  | JBool bool
  | JNum js_int
  | JStr string
  | JArr "jsval list"
  | JObj "(string \<times> jsval) list"

text \<open>ToBoolean: what \<^verbatim>\<open>if (x)\<close>, \<^verbatim>\<open>!x\<close> and \<^verbatim>\<open>x || y\<close> test.\<close>

fun truthy :: "jsval \<Rightarrow> bool" where
  "truthy JUndefined = False"
| "truthy JNull = False"
| "truthy (JBool b) = b"
| "truthy (JNum n) = (n \<noteq> 0)"
| "truthy (JStr s) = (s \<noteq> [])"
| "truthy (JArr xs) = True"
| "truthy (JObj kvs) = True"

text \<open>\<^verbatim>\<open>typeof x === "object"\<close> (true of \<^verbatim>\<open>null\<close> as well).\<close>

fun typeof_object :: "jsval \<Rightarrow> bool" where
  "typeof_object JNull = True"
| "typeof_object (JArr xs) = True"
| "typeof_object (JObj kvs) = True"
| "typeof_object v = False"

text \<open>Property read \<^verbatim>\<open>x.k\<close> for the envelope's field names: a missing property is \<^verbatim>\<open>undefined\<close>.\<close>

fun js_get :: "jsval \<Rightarrow> string \<Rightarrow> jsval" where
  "js_get (JObj kvs) k = (case map_of kvs k of Some v \<Rightarrow> v | None \<Rightarrow> JUndefined)"
| "js_get v k = JUndefined"

fun show_nat :: "nat \<Rightarrow> string" where
  "show_nat n =
     (if n < 10 then [char_of (48 + n)]
      else show_nat (n div 10) @ [char_of (48 + n mod 10)])"

declare show_nat.simps [simp del]

definition show_int :: "js_int \<Rightarrow> string" where
  "show_int i =
     (if sint i < 0 then CHR ''-'' # show_nat (nat (- sint i)) else show_nat (nat (sint i)))"

fun join_comma :: "string list \<Rightarrow> string" where
  "join_comma [] = []"
| "join_comma [s] = s"
| "join_comma (s # t # ss) = s @ CHR '','' # join_comma (t # ss)"

text \<open>
  ToString: what a template literal \<^verbatim>\<open>`${x}`\<close>, \<^verbatim>\<open>String(x)\<close> and \<^verbatim>\<open>new Error(x)\<close>
  apply. \<open>None\<close> is a \<^verbatim>\<open>TypeError\<close> thrown instead of a string: an object with an own
  property \<^verbatim>\<open>toString\<close> hides \<^verbatim>\<open>Object.prototype.toString\<close> behind a value that cannot be
  called (no function survives the cloning), \<^verbatim>\<open>valueOf\<close> then returns the object itself,
  and the conversion to a primitive fails. An array joins the strings of its elements,
  \<^verbatim>\<open>undefined\<close> and \<^verbatim>\<open>null\<close> as empty strings, and fails when one of them fails.
\<close>

fun to_string :: "jsval \<Rightarrow> string option" where
  "to_string JUndefined = Some ''undefined''"
| "to_string JNull = Some ''null''"
| "to_string (JBool b) = Some (if b then ''true'' else ''false'')"
| "to_string (JNum n) = Some (show_int n)"
| "to_string (JStr s) = Some s"
| "to_string (JArr xs) =
     map_option join_comma
       (those (map (\<lambda>x. if x = JUndefined \<or> x = JNull then Some [] else to_string x) xs))"
| "to_string (JObj kvs) =
     (if map_of kvs ''toString'' = None then Some ''[object Object]'' else None)"

text \<open>An \<^verbatim>\<open>Error\<close> object is its message; \<open>Error_toString\<close> is \<^verbatim>\<open>`${error}`\<close>.\<close>

datatype js_error = Error string

fun message :: "js_error \<Rightarrow> string" where
  "message (Error m) = m"

fun Error_toString :: "js_error \<Rightarrow> string" where
  "Error_toString (Error m) = (if m = [] then ''Error'' else ''Error: '' @ m)"

text \<open>What a handler throws, or its promise rejects with: an \<^verbatim>\<open>Error\<close> or any other value.\<close>

datatype thrown = ThrownError js_error | ThrownValue jsval

section \<open>Constants of the source\<close>

definition DEFAULT_MESSAGE_TYPE :: string where
  "DEFAULT_MESSAGE_TYPE = ''web-bridge''"

definition HANDSHAKE_ACTION :: string where
  "HANDSHAKE_ACTION = ''__handshake__''"

text \<open>
  The message texts of the source are Chinese string literals; they are kept as their
  UTF-8 bytes. In order: U+5EFA U+8054 U+5931 U+8D25 ": " (connection failed),
  U+63E1 U+624B U+8D85 U+65F6 (handshake timed out),
  U+8BF7 U+6C42 U+8D85 U+65F6 ": " (request timed out),
  U+672A U+627E U+5230 U+5904 U+7406 U+5668 ": " (handler not found),
  U+672A U+77E5 U+9519 U+8BEF (unknown error),
  U+8FDE U+63A5 U+5DF2 U+65AD U+5F00 (connection closed),
  U+5904 U+7406 U+6D88 U+606F U+9519 U+8BEF " [" (error while handling message).
\<close>

definition MSG_HANDSHAKE_FAILED :: string where
  "MSG_HANDSHAKE_FAILED =
     [CHR 0xE5, CHR 0xBB, CHR 0xBA, CHR 0xE8, CHR 0x81, CHR 0x94, CHR 0xE5, CHR 0xA4,
      CHR 0xB1, CHR 0xE8, CHR 0xB4, CHR 0xA5, CHR 0x3A, CHR 0x20]"

definition MSG_HANDSHAKE_TIMEOUT :: string where
  "MSG_HANDSHAKE_TIMEOUT =
     [CHR 0xE6, CHR 0x8F, CHR 0xA1, CHR 0xE6, CHR 0x89, CHR 0x8B, CHR 0xE8, CHR 0xB6,
      CHR 0x85, CHR 0xE6, CHR 0x97, CHR 0xB6]"

definition MSG_REQUEST_TIMEOUT :: string where
  "MSG_REQUEST_TIMEOUT =
     [CHR 0xE8, CHR 0xAF, CHR 0xB7, CHR 0xE6, CHR 0xB1, CHR 0x82, CHR 0xE8, CHR 0xB6,
      CHR 0x85, CHR 0xE6, CHR 0x97, CHR 0xB6, CHR 0x3A, CHR 0x20]"

definition MSG_NO_HANDLER :: string where
  "MSG_NO_HANDLER =
     [CHR 0xE6, CHR 0x9C, CHR 0xAA, CHR 0xE6, CHR 0x89, CHR 0xBE, CHR 0xE5, CHR 0x88,
      CHR 0xB0, CHR 0xE5, CHR 0xA4, CHR 0x84, CHR 0xE7, CHR 0x90, CHR 0x86, CHR 0xE5,
      CHR 0x99, CHR 0xA8, CHR 0x3A, CHR 0x20]"

definition MSG_UNKNOWN_ERROR :: string where
  "MSG_UNKNOWN_ERROR =
     [CHR 0xE6, CHR 0x9C, CHR 0xAA, CHR 0xE7, CHR 0x9F, CHR 0xA5, CHR 0xE9, CHR 0x94,
      CHR 0x99, CHR 0xE8, CHR 0xAF, CHR 0xAF]"

definition MSG_DISCONNECTED :: string where
  "MSG_DISCONNECTED =
     [CHR 0xE8, CHR 0xBF, CHR 0x9E, CHR 0xE6, CHR 0x8E, CHR 0xA5, CHR 0xE5, CHR 0xB7,
      CHR 0xB2, CHR 0xE6, CHR 0x96, CHR 0xAD, CHR 0xE5, CHR 0xBC, CHR 0x80]"

definition MSG_HANDLER_ERROR :: string where
  "MSG_HANDLER_ERROR =
     [CHR 0xE5, CHR 0xA4, CHR 0x84, CHR 0xE7, CHR 0x90, CHR 0x86, CHR 0xE6, CHR 0xB6,
      CHR 0x88, CHR 0xE6, CHR 0x81, CHR 0xAF, CHR 0xE9, CHR 0x94, CHR 0x99, CHR 0xE8,
      CHR 0xAF, CHR 0xAF, CHR 0x20, CHR 0x5B]"

section \<open>The bridge and its runtime\<close>

text \<open>
  A handler is called with the payload. It returns a value that is no thenable, throws, or
  returns a thenable, which settles later or never. The first argument is what
  \<^verbatim>\<open>Date.now()\<close> returns during the call (the built-in handshake handler reads it).
\<close>

datatype handler_result = Returns jsval | Throws thrown | Thenable

type_synonym handler = "js_int \<Rightarrow> jsval \<Rightarrow> handler_result"

text \<open>
  A timer handle, as \<^verbatim>\<open>setTimeout\<close> returns it: a positive integer in a browser, an
  object in Node, truthy in both. A handle is never handed out twice.
\<close>

type_synonym timer_id = nat

text \<open>
  The \<^verbatim>\<open>resolve\<close>/\<^verbatim>\<open>reject\<close> pair of a pending entry belongs to one promise: that of
  the \<open>n\<close>-th call of \<^verbatim>\<open>invoke\<close> (created in \<^verbatim>\<open>invokeRequest\<close>), or that of a
  handshake probe (created in \<^verbatim>\<open>sendSingleHandshakeRequest\<close> and awaited by
  \<^verbatim>\<open>attemptHandshake\<close>).
\<close>

datatype completion = InvokeCall nat | HandshakeProbe

record pending =
  completion :: completion
  timeout :: timer_id

text \<open>The three closures the source passes to \<^verbatim>\<open>setTimeout\<close>, with what they capture.\<close>

datatype timer_callback =
    RequestTimedOut string string nat
  | HandshakeTimedOut string
  | AttemptHandshake

record options =
  requestTimeout :: int
  handshakeTimeout :: int
  handshakeRetryInterval :: int
  maxHandshakeAttempts :: int

text \<open>
  The fields of \<^verbatim>\<open>class WebBridge\<close> come first (the private field
  \<^verbatim>\<open>handshakeRetryInterval\<close>, which holds the retry timer's handle, is
  \<open>handshakeRetryTimer\<close> here: the option of the same name keeps the name). Then the part
  of the JavaScript runtime the class acts on: whether its listener is attached, the armed
  timers (handle, callback, delay in ms) in the order they were armed, the calls of
  \<^verbatim>\<open>invoke\<close> suspended at \<^verbatim>\<open>await this.ensureReady()\<close> (call number, action, data),
  the clock (what \<^verbatim>\<open>Date.now()\<close> returns; it shows one value throughout a step), and
  the successive results of \<^verbatim>\<open>Math.random().toString(36).substr(2, 9)\<close>.
  \<open>readyPromise\<close> is whether the field holds a promise.
\<close>

record bridge =
  communicationId :: string
  messageType :: string
  allowedIds :: "string set"
  messageHandlers :: "string \<rightharpoonup> handler"
  pendingRequests :: "(string \<times> pending) list"
  isReady :: bool
  readyPromise :: bool
  handshakeRetryTimer :: "timer_id option"
  handshakeAttempts :: int
  options :: options
  listening :: bool
  timers :: "(timer_id \<times> timer_callback \<times> int) list"
  nextTimer :: timer_id
  awaitingReady :: "(nat \<times> string \<times> jsval) list"
  nextCall :: nat
  clock :: js_int
  rand_src :: "nat \<Rightarrow> string"
  rand_ctr :: nat

text \<open>
  What a method does to the world outside the bridge's fields: an envelope handed to
  \<^verbatim>\<open>globalThis.postMessage\<close>, a call of the handler registered under an action with a
  payload, \<^verbatim>\<open>handleRequestMessage\<close> suspended at its \<^verbatim>\<open>await\<close> on the thenable a handler
  returned (with the \<^verbatim>\<open>action\<close>, \<^verbatim>\<open>needResponse\<close> and \<^verbatim>\<open>id\<close> it holds), a line on
  \<^verbatim>\<open>console.error\<close>, a call of a promise's \<^verbatim>\<open>resolve\<close> or \<^verbatim>\<open>reject\<close>, and a
  \<^verbatim>\<open>TypeError\<close> that leaves the method uncaught (thrown out of the listener, or the
  rejection of the promise of \<^verbatim>\<open>handleRequestMessage\<close>, which nothing handles).
\<close>

datatype effect =
    PostMessage jsval
  | CallHandler jsval jsval
  | Await jsval jsval jsval
  | ConsoleError string thrown
  | Resolve completion jsval
  | Reject completion js_error
  | UncaughtTypeError

text \<open>The two envelope shapes, with the fields in the order the source writes them.\<close>

definition RequestMessage ::
  "string \<Rightarrow> string \<Rightarrow> string \<Rightarrow> string \<Rightarrow> jsval \<Rightarrow> bool \<Rightarrow> js_int \<Rightarrow> jsval" where
  "RequestMessage ty cid i action data needResponse ts =
     JObj [(''type'', JStr ty), (''communicationId'', JStr cid), (''id'', JStr i),
           (''action'', JStr action), (''data'', data),
           (''needResponse'', JBool needResponse), (''timestamp'', JNum ts)]"

definition ResponseMessage ::
  "string \<Rightarrow> string \<Rightarrow> string \<Rightarrow> jsval \<Rightarrow> bool \<Rightarrow> jsval \<Rightarrow> jsval \<Rightarrow> js_int \<Rightarrow> jsval" where
  "ResponseMessage ty cid i requestId success data error ts =
     JObj [(''type'', JStr ty), (''communicationId'', JStr cid), (''id'', JStr i),
           (''requestId'', requestId), (''success'', JBool success), (''data'', data),
           (''error'', error), (''timestamp'', JNum ts)]"

subsection \<open>Allow-list, identifiers, timers\<close>

definition addAllowedId :: "bridge \<Rightarrow> string \<Rightarrow> bridge" where
  "addAllowedId b cid = b\<lparr>allowedIds := insert cid (allowedIds b)\<rparr>"

definition removeAllowedId :: "bridge \<Rightarrow> string \<Rightarrow> bridge" where
  "removeAllowedId b cid = b\<lparr>allowedIds := allowedIds b - {cid}\<rparr>"

text \<open>
  \<^verbatim>\<open>this.allowedIds.size === 0 || this.allowedIds.has(communicationId)\<close>; the dispatcher
  passes whatever the envelope holds, and the set holds strings only.
\<close>

definition isAllowedId :: "bridge \<Rightarrow> jsval \<Rightarrow> bool" where
  "isAllowedId b cid =
     (allowedIds b = {} \<or> (case cid of JStr s \<Rightarrow> s \<in> allowedIds b | _ \<Rightarrow> False))"

definition generateId :: "bridge \<Rightarrow> string \<times> bridge" where
  "generateId b =
     (show_int (clock b) @ ''-'' @ rand_src b (rand_ctr b), b\<lparr>rand_ctr := Suc (rand_ctr b)\<rparr>)"

definition setTimeout :: "bridge \<Rightarrow> timer_callback \<Rightarrow> int \<Rightarrow> timer_id \<times> bridge" where
  "setTimeout b cb delay =
     (nextTimer b,
      b\<lparr>timers := timers b @ [(nextTimer b, cb, delay)], nextTimer := Suc (nextTimer b)\<rparr>)"

definition clearTimeout :: "bridge \<Rightarrow> timer_id \<Rightarrow> bridge" where
  "clearTimeout b h = b\<lparr>timers := AList.delete h (timers b)\<rparr>"

definition stopHandshakeRetry :: "bridge \<Rightarrow> bridge" where
  "stopHandshakeRetry b =
     (case handshakeRetryTimer b of
        None \<Rightarrow> b
      | Some h \<Rightarrow> (clearTimeout b h)\<lparr>handshakeRetryTimer := None\<rparr>)"

text \<open>\<^verbatim>\<open>Map.get\<close> and \<^verbatim>\<open>Map.delete\<close> with a key read from an envelope: the tables have string keys.\<close>

definition table_get :: "(string \<times> 'a) list \<Rightarrow> jsval \<Rightarrow> 'a option" where
  "table_get t key = (case key of JStr k \<Rightarrow> map_of t k | _ \<Rightarrow> None)"

definition table_delete :: "(string \<times> 'a) list \<Rightarrow> jsval \<Rightarrow> (string \<times> 'a) list" where
  "table_delete t key = (case key of JStr k \<Rightarrow> AList.delete k t | _ \<Rightarrow> t)"

definition handlers_get :: "(string \<rightharpoonup> handler) \<Rightarrow> jsval \<Rightarrow> handler option" where
  "handlers_get hs key = (case key of JStr k \<Rightarrow> hs k | _ \<Rightarrow> None)"

subsection \<open>Sending\<close>

definition send :: "bridge \<Rightarrow> string \<Rightarrow> jsval \<Rightarrow> bridge \<times> effect list" where
  "send b action data =
     (let (i, b1) = generateId b
      in (b1, [PostMessage
                (RequestMessage (messageType b) (communicationId b) i action data False (clock b))]))"

definition invokeRequest :: "bridge \<Rightarrow> nat \<Rightarrow> string \<Rightarrow> jsval \<Rightarrow> bridge \<times> effect list" where
  "invokeRequest b call action data =
     (let (i, b1) = generateId b;
          (h, b2) = setTimeout b1 (RequestTimedOut i action call) (requestTimeout (options b1));
          b3 = b2\<lparr>pendingRequests :=
                    AList.update i \<lparr>completion = InvokeCall call, timeout = h\<rparr> (pendingRequests b2)\<rparr>
      in (b3, [PostMessage
                (RequestMessage (messageType b) (communicationId b) i action data True (clock b))]))"

definition sendSingleHandshakeRequest :: "bridge \<Rightarrow> bridge \<times> effect list" where
  "sendSingleHandshakeRequest b =
     (let (i, b1) = generateId b;
          (h, b2) = setTimeout b1 (HandshakeTimedOut i) (handshakeTimeout (options b1));
          b3 = b2\<lparr>pendingRequests :=
                    AList.update i \<lparr>completion = HandshakeProbe, timeout = h\<rparr> (pendingRequests b2)\<rparr>
      in (b3, [PostMessage
                (RequestMessage (messageType b) (communicationId b) i HANDSHAKE_ACTION
                   (JObj [(''timestamp'', JNum (clock b))]) True (clock b))]))"

subsection \<open>Readiness and the handshake\<close>

text \<open>
  When the promise of \<^verbatim>\<open>performHandshakeWithRetry\<close> settles, the \<^verbatim>\<open>finally\<close> of
  \<^verbatim>\<open>ensureReady\<close> clears \<^verbatim>\<open>readyPromise\<close> and every suspended \<^verbatim>\<open>invoke\<close> goes on:
  to \<^verbatim>\<open>invokeRequest\<close> when it resolved, to its own rejection with the same error when
  it rejected.
\<close>

fun invokeRequests :: "bridge \<Rightarrow> (nat \<times> string \<times> jsval) list \<Rightarrow> bridge \<times> effect list" where
  "invokeRequests b [] = (b, [])"
| "invokeRequests b ((call, action, data) # ws) =
     (let (b1, e1) = invokeRequest b call action data;
          (b2, e2) = invokeRequests b1 ws
      in (b2, e1 @ e2))"

definition ready_resolved :: "bridge \<Rightarrow> bridge \<times> effect list" where
  "ready_resolved b =
     invokeRequests (b\<lparr>readyPromise := False, awaitingReady := []\<rparr>) (awaitingReady b)"

definition ready_rejected :: "bridge \<Rightarrow> js_error \<Rightarrow> bridge \<times> effect list" where
  "ready_rejected b err =
     (b\<lparr>readyPromise := False, awaitingReady := []\<rparr>,
      map (\<lambda>(call, action, data). Reject (InvokeCall call) err) (awaitingReady b))"

text \<open>
  \<^verbatim>\<open>attemptHandshake\<close> in three parts: up to its \<^verbatim>\<open>await\<close>, the rest of the
  \<^verbatim>\<open>try\<close> block (the probe resolved), and the \<^verbatim>\<open>catch\<close> block (the probe rejected
  with \<open>error\<close>).
\<close>

definition attemptHandshake :: "bridge \<Rightarrow> bridge \<times> effect list" where
  "attemptHandshake b = sendSingleHandshakeRequest b"

definition attemptHandshake_try :: "bridge \<Rightarrow> bridge \<times> effect list" where
  "attemptHandshake_try b = ready_resolved (stopHandshakeRetry (b\<lparr>isReady := True\<rparr>))"

definition attemptHandshake_catch :: "bridge \<Rightarrow> js_error \<Rightarrow> bridge \<times> effect list" where
  "attemptHandshake_catch b error =
     (let b1 = b\<lparr>handshakeAttempts := handshakeAttempts b + 1\<rparr>
      in if handshakeAttempts b1 \<ge> maxHandshakeAttempts (options b1)
         then ready_rejected (stopHandshakeRetry b1)
                (Error (MSG_HANDSHAKE_FAILED @ Error_toString error))
         else (let (h, b2) = setTimeout b1 AttemptHandshake (handshakeRetryInterval (options b1))
               in (b2\<lparr>handshakeRetryTimer := Some h\<rparr>, [])))"

definition performHandshakeWithRetry :: "bridge \<Rightarrow> bridge \<times> effect list" where
  "performHandshakeWithRetry b = attemptHandshake b"

text \<open>\<open>ReadyNow\<close>: \<^verbatim>\<open>ensureReady\<close> returned at once; \<open>AwaitReady\<close>: its caller awaits \<^verbatim>\<open>readyPromise\<close>.\<close>

datatype readiness = ReadyNow | AwaitReady

definition ensureReady :: "bridge \<Rightarrow> bridge \<times> effect list \<times> readiness" where
  "ensureReady b =
     (if isReady b then (b, [], ReadyNow)
      else if readyPromise b then (b, [], AwaitReady)
      else (let (b1, es) = performHandshakeWithRetry b
            in (b1\<lparr>readyPromise := True\<rparr>, es, AwaitReady)))"

text \<open>The call is numbered \<open>nextCall b\<close>; its promise is \<open>InvokeCall (nextCall b)\<close>.\<close>

definition invoke :: "bridge \<Rightarrow> string \<Rightarrow> jsval \<Rightarrow> bridge \<times> effect list" where
  "invoke b action data =
     (let call = nextCall b;
          (b1, es, r) = ensureReady (b\<lparr>nextCall := Suc call\<rparr>)
      in case r of
           ReadyNow \<Rightarrow> (let (b2, es2) = invokeRequest b1 call action data in (b2, es @ es2))
         | AwaitReady \<Rightarrow> (b1\<lparr>awaitingReady := awaitingReady b1 @ [(call, action, data)]\<rparr>, es))"

subsection \<open>Handlers\<close>

definition handle :: "bridge \<Rightarrow> string \<Rightarrow> handler \<Rightarrow> bridge" where
  "handle b action handler = b\<lparr>messageHandlers := (messageHandlers b)(action \<mapsto> handler)\<rparr>"

text \<open>The closure \<^verbatim>\<open>handle\<close> returns.\<close>

definition unhandle :: "bridge \<Rightarrow> string \<Rightarrow> bridge" where
  "unhandle b action = b\<lparr>messageHandlers := (messageHandlers b)(action := None)\<rparr>"

definition getReady :: "bridge \<Rightarrow> bool" where
  "getReady b = isReady b"

definition handshakeHandler :: handler where
  "handshakeHandler now data = Returns (JObj [(''success'', JBool True), (''timestamp'', JNum now)])"

definition setupHandshakeHandler :: "bridge \<Rightarrow> bridge" where
  "setupHandshakeHandler b = handle b HANDSHAKE_ACTION handshakeHandler"

definition setupMessageListener :: "bridge \<Rightarrow> bridge" where
  "setupMessageListener b = b\<lparr>listening := True\<rparr>"

subsection \<open>The dispatcher\<close>

text \<open>\<open>error\<close> is \<open>JUndefined\<close> where the source leaves the parameter out.\<close>

definition sendResponse :: "bridge \<Rightarrow> jsval \<Rightarrow> bool \<Rightarrow> jsval \<Rightarrow> jsval \<Rightarrow> bridge \<times> effect list" where
  "sendResponse b requestId success data error =
     (let (i, b1) = generateId b
      in (b1, [PostMessage
                (ResponseMessage (messageType b) (communicationId b) i requestId success data error
                   (clock b))]))"

text \<open>\<^verbatim>\<open>error instanceof Error ? error.message : String(error)\<close>\<close>

fun errorMessage :: "thrown \<Rightarrow> string option" where
  "errorMessage (ThrownError e) = Some (message e)"
| "errorMessage (ThrownValue v) = to_string v"

text \<open>
  \<^verbatim>\<open>handleRequestMessage\<close> in four parts. \<open>handleRequestMessage_try\<close> is what the
  \<^verbatim>\<open>try\<close> block does with the handler's result, \<open>handleRequestMessage_catch\<close> is the
  \<^verbatim>\<open>catch\<close> block: its template literal is evaluated before \<^verbatim>\<open>console.error\<close> is
  called, and \<^verbatim>\<open>String(error)\<close> after it; a \<^verbatim>\<open>TypeError\<close> of either leaves the method.
  \<open>handleRequestMessage\<close> is the method up to its \<^verbatim>\<open>await\<close>, which it reaches only
  when the handler returned a thenable: for any other result the \<^verbatim>\<open>try\<close> block goes on
  at once, and when the handler threw, the \<^verbatim>\<open>catch\<close> block does. The template literal
  of the missing-handler text is inside the \<^verbatim>\<open>try\<close> block: its \<^verbatim>\<open>TypeError\<close> is
  caught, and the template literal of the \<^verbatim>\<open>catch\<close> block throws it again.
  \<open>handleRequestMessage_resume\<close> is the method from its \<^verbatim>\<open>await\<close> on, when the thenable
  has fulfilled with a value (\<open>Inr\<close>) or rejected (\<open>Inl\<close>); it runs in the state the bridge
  has by then.
\<close>

definition handleRequestMessage_try ::
  "bridge \<Rightarrow> jsval \<Rightarrow> jsval \<Rightarrow> jsval \<Rightarrow> bridge \<times> effect list" where
  "handleRequestMessage_try b i needResponse result =
     (if truthy needResponse then sendResponse b i True result JUndefined else (b, []))"

definition handleRequestMessage_catch ::
  "bridge \<Rightarrow> jsval \<Rightarrow> jsval \<Rightarrow> jsval \<Rightarrow> thrown \<Rightarrow> bridge \<times> effect list" where
  "handleRequestMessage_catch b action i needResponse error =
     (case to_string action of
        None \<Rightarrow> (b, [UncaughtTypeError])
      | Some name \<Rightarrow>
          (let log = ConsoleError (MSG_HANDLER_ERROR @ name @ '']:'') error
           in if truthy needResponse
              then (case errorMessage error of
                      None \<Rightarrow> (b, [log, UncaughtTypeError])
                    | Some text \<Rightarrow>
                        (let (b1, es) = sendResponse b i False JUndefined (JStr text)
                         in (b1, log # es)))
              else (b, [log])))"

definition handleRequestMessage :: "bridge \<Rightarrow> jsval \<Rightarrow> bridge \<times> effect list" where
  "handleRequestMessage b msg =
     (let action = js_get msg ''action'';
          data = js_get msg ''data'';
          needResponse = js_get msg ''needResponse'';
          i = js_get msg ''id''
      in case handlers_get (messageHandlers b) action of
           None \<Rightarrow>
             if truthy needResponse
             then (case to_string action of
                     Some name \<Rightarrow>
                       sendResponse b i False JUndefined (JStr (MSG_NO_HANDLER @ name))
                   | None \<Rightarrow> (b, [UncaughtTypeError]))
             else (b, [])
         | Some handler \<Rightarrow>
             (let call = CallHandler action data
              in case handler (clock b) data of
                   Returns result \<Rightarrow>
                     (let (b1, es) = handleRequestMessage_try b i needResponse result
                      in (b1, call # es))
                 | Throws error \<Rightarrow>
                     (let (b1, es) = handleRequestMessage_catch b action i needResponse error
                      in (b1, call # es))
                 | Thenable \<Rightarrow> (b, [call, Await action needResponse i])))"

definition handleRequestMessage_resume ::
  "bridge \<Rightarrow> jsval \<Rightarrow> jsval \<Rightarrow> jsval \<Rightarrow> thrown + jsval \<Rightarrow> bridge \<times> effect list" where
  "handleRequestMessage_resume b action needResponse i outcome =
     (case outcome of
        Inr result \<Rightarrow> handleRequestMessage_try b i needResponse result
      | Inl error \<Rightarrow> handleRequestMessage_catch b action i needResponse error)"

text \<open>
  \<^verbatim>\<open>new Error(error || ...)\<close> converts its argument to a string. It is evaluated when the
  timer is cancelled and the entry deleted, as the argument of \<^verbatim>\<open>pending.reject\<close>: its
  \<^verbatim>\<open>TypeError\<close> leaves the method before \<^verbatim>\<open>reject\<close> is called.
\<close>

definition handleResponseMessage :: "bridge \<Rightarrow> jsval \<Rightarrow> bridge \<times> effect list" where
  "handleResponseMessage b msg =
     (let requestId = js_get msg ''requestId'';
          success = js_get msg ''success'';
          data = js_get msg ''data'';
          error = js_get msg ''error''
      in case table_get (pendingRequests b) requestId of
           None \<Rightarrow> (b, [])
         | Some p \<Rightarrow>
             (let b1 = clearTimeout b (timeout p);
                  b2 = b1\<lparr>pendingRequests := table_delete (pendingRequests b1) requestId\<rparr>
              in if truthy success then (b2, [Resolve (completion p) data])
                 else (case to_string (if truthy error then error else JStr MSG_UNKNOWN_ERROR) of
                         Some text \<Rightarrow> (b2, [Reject (completion p) (Error text)])
                       | None \<Rightarrow> (b2, [UncaughtTypeError]))))"

text \<open>
  The call of \<^verbatim>\<open>handleRequestMessage\<close> is not awaited: whatever it throws rejects its own
  promise and the dispatcher goes on. \<^verbatim>\<open>handleResponseMessage\<close> is the last statement.
\<close>

definition handleMessage :: "bridge \<Rightarrow> jsval \<Rightarrow> bridge \<times> effect list" where
  "handleMessage b msg =
     (if \<not> truthy msg \<or> \<not> typeof_object msg \<or> js_get msg ''type'' \<noteq> JStr (messageType b)
      then (b, [])
      else if \<not> isAllowedId b (js_get msg ''communicationId'') then (b, [])
      else (let (b1, e1) = (if truthy (js_get msg ''action'') then handleRequestMessage b msg
                            else (b, []));
                (b2, e2) = (if truthy (js_get msg ''requestId'') then handleResponseMessage b1 msg
                            else (b1, []))
            in (b2, e1 @ e2)))"

subsection \<open>Teardown\<close>

definition clearPendingRequests :: "bridge \<Rightarrow> bridge \<times> effect list" where
  "clearPendingRequests b =
     (let b1 = foldl (\<lambda>s (i, p). clearTimeout s (timeout p)) b (pendingRequests b);
          es = map (\<lambda>(i, p). Reject (completion p) (Error MSG_DISCONNECTED)) (pendingRequests b)
      in (b1\<lparr>pendingRequests := []\<rparr>, es))"

definition destroy :: "bridge \<Rightarrow> bridge \<times> effect list" where
  "destroy b =
     (let b1 = stopHandshakeRetry b;
          b2 = b1\<lparr>messageHandlers := Map.empty\<rparr>;
          (b3, es) = clearPendingRequests b2
      in (b3\<lparr>listening := False\<rparr>, es))"

subsection \<open>Construction\<close>

text \<open>The constructor's \<^verbatim>\<open>options\<close> argument: \<open>None\<close> is a key left out.\<close>

record ctor_options =
  o_allowedIds :: "string list option"
  o_messageType :: "string option"
  o_requestTimeout :: "int option"
  o_handshakeTimeout :: "int option"
  o_handshakeRetryInterval :: "int option"
  o_maxHandshakeAttempts :: "int option"

definition no_options :: ctor_options where
  "no_options =
     \<lparr>o_allowedIds = None, o_messageType = None, o_requestTimeout = None,
      o_handshakeTimeout = None, o_handshakeRetryInterval = None,
      o_maxHandshakeAttempts = None\<rparr>"

definition default_options :: options where
  "default_options =
     \<lparr>requestTimeout = 30000, handshakeTimeout = 500, handshakeRetryInterval = 1000,
      maxHandshakeAttempts = 10\<rparr>"

text \<open>\<^verbatim>\<open>Object.assign(this.options, options)\<close>, for the four keys the class reads.\<close>

definition assign_options :: "options \<Rightarrow> ctor_options \<Rightarrow> options" where
  "assign_options d opts =
     \<lparr>requestTimeout = (case o_requestTimeout opts of Some v \<Rightarrow> v | None \<Rightarrow> requestTimeout d),
      handshakeTimeout =
        (case o_handshakeTimeout opts of Some v \<Rightarrow> v | None \<Rightarrow> handshakeTimeout d),
      handshakeRetryInterval =
        (case o_handshakeRetryInterval opts of Some v \<Rightarrow> v | None \<Rightarrow> handshakeRetryInterval d),
      maxHandshakeAttempts =
        (case o_maxHandshakeAttempts opts of Some v \<Rightarrow> v | None \<Rightarrow> maxHandshakeAttempts d)\<rparr>"

text \<open>
  \<^verbatim>\<open>new WebBridge(communicationId, options)\<close>, in a runtime whose clock shows \<open>now\<close> and
  whose random source is \<open>rnd\<close>.
\<close>

definition WebBridge :: "string \<Rightarrow> ctor_options \<Rightarrow> js_int \<Rightarrow> (nat \<Rightarrow> string) \<Rightarrow> bridge" where
  "WebBridge cid opts now rnd =
     setupHandshakeHandler (setupMessageListener
       \<lparr>communicationId = cid,
        messageType =
          (case o_messageType opts of
             Some t \<Rightarrow> if t \<noteq> [] then t else DEFAULT_MESSAGE_TYPE
           | None \<Rightarrow> DEFAULT_MESSAGE_TYPE),
        allowedIds = (case o_allowedIds opts of Some ids \<Rightarrow> set ids | None \<Rightarrow> {}),
        messageHandlers = Map.empty,
        pendingRequests = [],
        isReady = False,
        readyPromise = False,
        handshakeRetryTimer = None,
        handshakeAttempts = 0,
        options = assign_options default_options opts,
        listening = False,
        timers = [],
        nextTimer = 1,
        awaitingReady = [],
        nextCall = 0,
        clock = now,
        rand_src = rnd,
        rand_ctr = 0\<rparr>)"

definition createBridge :: "string \<Rightarrow> ctor_options \<Rightarrow> js_int \<Rightarrow> (nat \<Rightarrow> string) \<Rightarrow> bridge" where
  "createBridge cid opts now rnd = WebBridge cid opts now rnd"

subsection \<open>The event loop\<close>

text \<open>
  A timer fires: it leaves the armed timers and its callback runs. Nothing happens for a
  handle that is not armed.
\<close>

definition timer_fires :: "bridge \<Rightarrow> timer_id \<Rightarrow> bridge \<times> effect list" where
  "timer_fires b h =
     (case map_of (timers b) h of
        None \<Rightarrow> (b, [])
      | Some (cb, delay) \<Rightarrow>
          (let b1 = b\<lparr>timers := AList.delete h (timers b)\<rparr>
           in case cb of
                RequestTimedOut i action call \<Rightarrow>
                  (b1\<lparr>pendingRequests := AList.delete i (pendingRequests b1)\<rparr>,
                   [Reject (InvokeCall call) (Error (MSG_REQUEST_TIMEOUT @ action))])
              | HandshakeTimedOut i \<Rightarrow>
                  (b1\<lparr>pendingRequests := AList.delete i (pendingRequests b1)\<rparr>,
                   [Reject HandshakeProbe (Error MSG_HANDSHAKE_TIMEOUT)])
              | AttemptHandshake \<Rightarrow> attemptHandshake b1))"

text \<open>The transport delivers a value to the listener, if it is attached.\<close>

definition deliver :: "bridge \<Rightarrow> jsval \<Rightarrow> bridge \<times> effect list" where
  "deliver b msg = (if listening b then handleMessage b msg else (b, []))"

text \<open>
  Settling a probe's promise queues the rest of \<^verbatim>\<open>attemptHandshake\<close> as a microtask: it
  runs when the synchronous code that settled it has returned, before any other event.
  The thenable of a handler belongs to the handler: when it settles, and with what, is an
  event of its own (\<open>HandlerSettles\<close>, with what the suspended method holds), and the rest
  of \<^verbatim>\<open>handleRequestMessage\<close> runs then.
\<close>

fun microtasks :: "bridge \<Rightarrow> effect list \<Rightarrow> bridge \<times> effect list" where
  "microtasks b [] = (b, [])"
| "microtasks b (Resolve HandshakeProbe v # es) =
     (let (b1, e1) = attemptHandshake_try b;
          (b2, e2) = microtasks b1 es
      in (b2, e1 @ e2))"
| "microtasks b (Reject HandshakeProbe err # es) =
     (let (b1, e1) = attemptHandshake_catch b err;
          (b2, e2) = microtasks b1 es
      in (b2, e1 @ e2))"
| "microtasks b (e # es) = microtasks b es"

definition settle :: "bridge \<times> effect list \<Rightarrow> bridge \<times> effect list" where
  "settle r = (let (b, es) = r; (b1, es1) = microtasks b es in (b1, es @ es1))"

datatype event =
    Invoke string jsval
  | Send string jsval
  | Handle string handler
  | Unhandle string
  | AddAllowedId string
  | RemoveAllowedId string
  | Destroy
  | Message jsval
  | TimerFires timer_id
  | HandlerSettles jsval jsval jsval "thrown + jsval"
  | ClockShows js_int

fun step :: "bridge \<Rightarrow> event \<Rightarrow> bridge \<times> effect list" where
  "step b (Invoke action data) = settle (invoke b action data)"
| "step b (Send action data) = settle (send b action data)"
| "step b (Handle action handler) = (handle b action handler, [])"
| "step b (Unhandle action) = (unhandle b action, [])"
| "step b (AddAllowedId cid) = (addAllowedId b cid, [])"
| "step b (RemoveAllowedId cid) = (removeAllowedId b cid, [])"
| "step b Destroy = settle (destroy b)"
| "step b (Message msg) = settle (deliver b msg)"
| "step b (TimerFires h) = settle (timer_fires b h)"
| "step b (HandlerSettles action needResponse i outcome) =
     settle (handleRequestMessage_resume b action needResponse i outcome)"
| "step b (ClockShows t) = (b\<lparr>clock := t\<rparr>, [])"

fun run :: "bridge \<Rightarrow> event list \<Rightarrow> bridge \<times> effect list" where
  "run b [] = (b, [])"
| "run b (e # es) =
     (let (b1, e1) = step b e;
          (b2, e2) = run b1 es
      in (b2, e1 @ e2))"

section \<open>Notions the properties are stated with\<close>

text \<open>The timers of pending calls, as opposed to the two timers of the handshake.\<close>

definition request_timer :: "timer_id \<times> timer_callback \<times> int \<Rightarrow> bool" where
  "request_timer t = (case fst (snd t) of RequestTimedOut i a c \<Rightarrow> True | _ \<Rightarrow> False)"

text \<open>The settlements of a probe: those whose continuation is the rest of \<^verbatim>\<open>attemptHandshake\<close>.\<close>

fun probe_settlement :: "effect \<Rightarrow> bool" where
  "probe_settlement (Resolve HandshakeProbe v) = True"
| "probe_settlement (Reject HandshakeProbe err) = True"
| "probe_settlement e = False"


text \<open>
  What every operation keeps: the options and the read-only fields stay, the attempt
  counter never goes down, readiness is never taken back, and the keys of the pending
  table stay distinct.
\<close>

definition evolves :: "bridge \<Rightarrow> bridge \<Rightarrow> bool" where
  "evolves b b' =
     (options b' = options b \<and> messageType b' = messageType b
      \<and> communicationId b' = communicationId b
      \<and> handshakeAttempts b \<le> handshakeAttempts b'
      \<and> (isReady b \<longrightarrow> isReady b')
      \<and> (distinct (map fst (pendingRequests b)) \<longrightarrow> distinct (map fst (pendingRequests b'))))"

text \<open>
  A handshake sequence in flight holds one armed timer at any moment between two events:
  the timeout of its probe, or the timer of its next attempt. \<open>in_flight\<close> counts the
  armed timers of these two kinds.
\<close>

definition in_flight :: "bridge \<Rightarrow> nat" where
  "in_flight b = length (filter (\<lambda>t. \<not> request_timer t) (timers b))"

text \<open>
  The shapes a bridge goes through, in terms of its armed timers and its pending table.
  Before readiness: nothing armed and nothing pending (\<open>idle\<close>), a retry timer armed
  (\<open>retry_wait\<close>), or one probe pending with its timeout armed (\<open>probing\<close>). After
  readiness (\<open>steady\<close>): timers and entries of calls only. \<open>probe_settled\<close> is the
  state between the settlement of a probe and the microtask that continues the attempt,
  and \<open>after_sync\<close> says that the synchronous part of a step ends in one of the four
  shapes having settled no probe, or in \<open>probe_settled\<close> having settled exactly one, last.
\<close>

definition nonprobe :: "string \<times> pending \<Rightarrow> bool" where
  "nonprobe e = (completion (snd e) \<noteq> HandshakeProbe)"

definition steady :: "bridge \<Rightarrow> bool" where
  "steady b =
     (isReady b \<and> list_all request_timer (timers b) \<and> list_all nonprobe (pendingRequests b))"

definition idle :: "bridge \<Rightarrow> bool" where
  "idle b = (\<not> isReady b \<and> timers b = [] \<and> pendingRequests b = [])"

definition probe_settled :: "bridge \<Rightarrow> bool" where
  "probe_settled b = (\<not> isReady b \<and> readyPromise b \<and> timers b = [] \<and> pendingRequests b = [])"

definition retry_wait :: "bridge \<Rightarrow> bool" where
  "retry_wait b =
     (\<not> isReady b \<and> readyPromise b \<and> pendingRequests b = []
      \<and> (\<exists>h d. timers b = [(h, AttemptHandshake, d)]))"

definition probing :: "bridge \<Rightarrow> bool" where
  "probing b =
     (\<not> isReady b \<and> readyPromise b
      \<and> (\<exists>h i d. timers b = [(h, HandshakeTimedOut i, d)]
             \<and> pendingRequests b = [(i, \<lparr>completion = HandshakeProbe, timeout = h\<rparr>)]))"

definition phases :: "bridge \<Rightarrow> bool" where
  "phases b = (steady b \<or> idle b \<or> retry_wait b \<or> probing b)"

definition after_sync :: "bridge \<times> effect list \<Rightarrow> bool" where
  "after_sync r =
     ((phases (fst r) \<and> (\<forall>e \<in> set (snd r). \<not> probe_settlement e))
      \<or> (probe_settled (fst r)
          \<and> (\<exists>xs x. snd r = xs @ [x] \<and> (\<forall>e \<in> set xs. \<not> probe_settlement e)
                \<and> probe_settlement x)))"

text \<open>
  The states of the specification's handshake state machine, read off the fields: the
  source has no state field, and \<open>FAILED\<close> is "not ready, no sequence in progress, the
  counter at the maximum".
\<close>

datatype handshake_state = NOT_READY | HANDSHAKING | READY | FAILED

definition handshake_state_of :: "bridge \<Rightarrow> handshake_state" where
  "handshake_state_of b =
     (if isReady b then READY
      else if readyPromise b then HANDSHAKING
      else if maxHandshakeAttempts (options b) \<le> handshakeAttempts b then FAILED
      else NOT_READY)"

section \<open>Example states and envelopes\<close>

definition bridge_a :: bridge where
  "bridge_a = WebBridge ''a'' no_options 1000 (\<lambda>n. ''r'' @ show_nat n)"

definition bridge_b :: bridge where
  "bridge_b = WebBridge ''b'' no_options 2000 (\<lambda>n. ''s'' @ show_nat n)"

text \<open>A bridge that accepts only \<open>b\<close> and gives up after one handshake attempt.\<close>

definition bridge_only_b :: bridge where
  "bridge_only_b =
     WebBridge ''a'' (no_options\<lparr>o_allowedIds := Some [''b''], o_maxHandshakeAttempts := Some 1\<rparr>) 1000
       (\<lambda>n. ''r'' @ show_nat n)"

text \<open>The first probe sent, awaiting its answer.\<close>

definition ex_probing :: bridge where
  "ex_probing = fst (step bridge_a (Invoke ''ping'' JNull))"

definition ex_single :: bridge where
  "ex_single = fst (step bridge_only_b (Invoke ''ping'' JNull))"

text \<open>The first probe timed out, the retry timer fired, the second probe is in flight.\<close>

definition ex_retrying :: bridge where
  "ex_retrying = fst (run bridge_a [Invoke ''echo'' (JNum 7), TimerFires 1, TimerFires 2])"

definition probe_a :: jsval where
  "probe_a =
     RequestMessage ''web-bridge'' ''a'' ''1000-r0'' HANDSHAKE_ACTION
       (JObj [(''timestamp'', JNum 1000)]) True 1000"

definition probe_reply_b :: jsval where
  "probe_reply_b =
     ResponseMessage ''web-bridge'' ''b'' ''2000-s0'' (JStr ''1000-r0'') True
       (JObj [(''success'', JBool True), (''timestamp'', JNum 2000)]) JUndefined 2000"

text \<open>\<open>a\<close> called \<^verbatim>\<open>invoke("ping", null)\<close>, \<open>b\<close> answered the probe, the call is pending.\<close>

definition ex_ready :: bridge where
  "ex_ready = fst (run bridge_a [Invoke ''ping'' JNull, Message probe_reply_b])"

definition request_a :: jsval where
  "request_a = RequestMessage ''web-bridge'' ''a'' ''1000-r1'' ''ping'' JNull True 1000"

text \<open>An envelope that carries both \<^verbatim>\<open>action\<close> and \<^verbatim>\<open>requestId\<close>.\<close>

definition msg_both :: jsval where
  "msg_both =
     JObj [(''type'', JStr ''web-bridge''), (''communicationId'', JStr ''b''), (''id'', JStr ''m1''),
           (''action'', JStr ''ping''), (''requestId'', JStr ''m0''), (''needResponse'', JBool True)]"

text \<open>
  Four answers to the pending call of \<open>ex_ready\<close>: a success, a failure with an error
  text, a failure without the \<^verbatim>\<open>error\<close> field, and a failure whose error is the empty
  string.
\<close>

definition pong_reply :: jsval where
  "pong_reply =
     ResponseMessage ''web-bridge'' ''b'' ''2000-s1'' (JStr ''1000-r1'') True (JStr ''pong'')
       JUndefined 2000"

definition error_reply :: jsval where
  "error_reply =
     ResponseMessage ''web-bridge'' ''b'' ''2000-s1'' (JStr ''1000-r1'') False JUndefined
       (JStr ''boom'') 2000"

definition failure_reply :: jsval where
  "failure_reply =
     JObj [(''type'', JStr ''web-bridge''), (''communicationId'', JStr ''b''),
           (''id'', JStr ''2000-s1''), (''requestId'', JStr ''1000-r1''),
           (''success'', JBool False)]"

definition empty_error_reply :: jsval where
  "empty_error_reply =
     ResponseMessage ''web-bridge'' ''b'' ''2000-s1'' (JStr ''1000-r1'') False JUndefined
       (JStr []) 2000"

text \<open>
  \<open>ex_single\<close> after its only attempt timed out, and then with a second call of
  \<^verbatim>\<open>invoke\<close> awaiting a new probe.
\<close>

definition ex_failed :: bridge where
  "ex_failed = fst (step ex_single (TimerFires 1))"

definition ex_failed_waiting :: bridge where
  "ex_failed_waiting = fst (run ex_failed [Invoke ''pong'' JNull])"

text \<open>The answer of \<open>bridge_a\<close> to its own probe.\<close>

definition probe_reply_a :: jsval where
  "probe_reply_a =
     ResponseMessage ''web-bridge'' ''a'' ''1000-r1'' (JStr ''1000-r0'') True
       (JObj [(''success'', JBool True), (''timestamp'', JNum 1000)]) JUndefined 1000"




text \<open>\<open>ex_ready\<close> calls \<^verbatim>\<open>invoke("echo", {x: 1})\<close>, and \<^verbatim>\<open>invoke("", 7)\<close>.\<close>

definition ex_echo_invoked :: "bridge \<times> effect list" where
  "ex_echo_invoked = invokeRequest ex_ready 1 ''echo'' (JObj [(''x'', JNum 1)])"

definition echo_request :: jsval where
  "echo_request =
     RequestMessage ''web-bridge'' ''a'' ''1000-r2'' ''echo'' (JObj [(''x'', JNum 1)]) True 1000"

definition echo_reply :: jsval where
  "echo_reply =
     ResponseMessage ''web-bridge'' ''b'' ''2000-s0'' (JStr ''1000-r2'') True
       (JObj [(''x'', JNum 1)]) JUndefined 2000"








text \<open>
  The answer of \<open>a\<close>, which has no handler for \<open>echo\<close>, to its own request (the
  transport hands a bridge its own broadcasts).
\<close>

definition self_reply :: jsval where
  "self_reply =
     ResponseMessage ''web-bridge'' ''a'' ''1000-r3'' (JStr ''1000-r2'') False JUndefined
       (JStr (MSG_NO_HANDLER @ ''echo'')) 1000"



text \<open>\<open>bridge_a\<close> between its first and its second attempt, and its second probe.\<close>

definition ex_retry_wait :: bridge where
  "ex_retry_wait = fst (run bridge_a [Invoke ''ping'' JNull, TimerFires 1])"

definition second_probe_a :: jsval where
  "second_probe_a =
     RequestMessage ''web-bridge'' ''a'' ''1000-r1'' HANDSHAKE_ACTION
       (JObj [(''timestamp'', JNum 1000)]) True 1000"

definition three_calls :: "(string \<times> jsval) list" where
  "three_calls = [(''echo'', JNum 7), (''pong'', JNull)]"

section \<open>Auxiliary facts\<close>

subsection \<open>Timers\<close>

lemma clearTimeout_fold:
  "foldl (\<lambda>s (i, p). clearTimeout s (timeout p)) b ps =
     b\<lparr>timers := filter (\<lambda>t. fst t \<notin> (timeout \<circ> snd) ` set ps) (timers b)\<rparr>"
proof (induction ps arbitrary: b)
  case Nil
  then show ?case by simp
next
  case (Cons x xs)
  obtain i p where x: "x = (i, p)" by (cases x)
  have "filter (\<lambda>t. fst t \<notin> (timeout \<circ> snd) ` set xs) (AList.delete (timeout p) (timers b)) =
        filter (\<lambda>t. fst t \<notin> (timeout \<circ> snd) ` set (x # xs)) (timers b)"
    by (auto simp: x AList.delete_eq intro!: filter_cong)
  moreover have "foldl (\<lambda>s (i, p). clearTimeout s (timeout p)) b (x # xs) =
        (clearTimeout b (timeout p))\<lparr>timers :=
           filter (\<lambda>t. fst t \<notin> (timeout \<circ> snd) ` set xs) (timers (clearTimeout b (timeout p)))\<rparr>"
    by (simp add: x Cons.IH)
  ultimately show ?case
    by (simp add: clearTimeout_def)
qed

lemma map_of_filter_None:
  "\<not> P h \<Longrightarrow> map_of (filter (\<lambda>t. P (fst t)) ts) h = None"
  by (induction ts) auto

lemma stopHandshakeRetry_eq:
  "stopHandshakeRetry b =
     b\<lparr>timers := (case handshakeRetryTimer b of None \<Rightarrow> timers b
                   | Some h \<Rightarrow> AList.delete h (timers b)),
       handshakeRetryTimer := None\<rparr>"
  by (cases "handshakeRetryTimer b") (simp_all add: stopHandshakeRetry_def clearTimeout_def)

subsection \<open>Closed forms\<close>

lemma destroy_eq:
  "destroy b =
     (b\<lparr>handshakeRetryTimer := None,
        messageHandlers := Map.empty,
        timers := filter (\<lambda>t. fst t \<notin> (timeout \<circ> snd) ` set (pendingRequests b))
                    (case handshakeRetryTimer b of None \<Rightarrow> timers b
                     | Some h \<Rightarrow> AList.delete h (timers b)),
        pendingRequests := [],
        listening := False\<rparr>,
      map (\<lambda>(i, p). Reject (completion p) (Error MSG_DISCONNECTED)) (pendingRequests b))"
  by (cases "handshakeRetryTimer b")
     (simp_all add: destroy_def stopHandshakeRetry_def clearPendingRequests_def clearTimeout_fold
        Let_def, simp_all add: clearTimeout_def)

lemma invokeRequest_timers:
  "timers (fst (invokeRequest b c a d)) =
     timers b @ [(nextTimer b, RequestTimedOut (fst (generateId b)) a c, requestTimeout (options b))]"
  by (simp add: invokeRequest_def generateId_def setTimeout_def Let_def)

lemma invokeRequests_timers:
  "set (timers (fst (invokeRequests b ws))) \<subseteq> set (timers b) \<union> {t. request_timer t}"
proof (induction ws arbitrary: b)
  case Nil
  then show ?case by simp
next
  case (Cons w ws)
  obtain c a d where w: "w = (c, a, d)" by (cases w)
  have "set (timers (fst (invokeRequest b c a d))) \<subseteq> set (timers b) \<union> {t. request_timer t}"
    by (simp add: invokeRequest_timers request_timer_def)
  with Cons.IH [of "fst (invokeRequest b c a d)"] show ?case
    by (auto simp: w split: prod.splits)
qed

lemma handshake_probe:
  "sendSingleHandshakeRequest b =
     (b\<lparr>rand_ctr := Suc (rand_ctr b),
        timers := timers b @ [(nextTimer b, HandshakeTimedOut (fst (generateId b)),
                               handshakeTimeout (options b))],
        nextTimer := Suc (nextTimer b),
        pendingRequests :=
          AList.update (fst (generateId b)) \<lparr>completion = HandshakeProbe, timeout = nextTimer b\<rparr>
            (pendingRequests b)\<rparr>,
      [PostMessage
         (RequestMessage (messageType b) (communicationId b) (fst (generateId b)) HANDSHAKE_ACTION
            (JObj [(''timestamp'', JNum (clock b))]) True (clock b))])"
  by (simp add: sendSingleHandshakeRequest_def generateId_def setTimeout_def Let_def)

lemma catch_exhausted:
  "maxHandshakeAttempts (options b) \<le> handshakeAttempts b + 1 \<Longrightarrow>
   attemptHandshake_catch b err =
     (b\<lparr>handshakeAttempts := handshakeAttempts b + 1,
        timers := (case handshakeRetryTimer b of None \<Rightarrow> timers b
                   | Some h \<Rightarrow> AList.delete h (timers b)),
        handshakeRetryTimer := None, readyPromise := False, awaitingReady := []\<rparr>,
      map (\<lambda>(call, action, data).
             Reject (InvokeCall call) (Error (MSG_HANDSHAKE_FAILED @ Error_toString err)))
        (awaitingReady b))"
  by (cases "handshakeRetryTimer b")
     (simp_all add: attemptHandshake_catch_def Let_def ready_rejected_def stopHandshakeRetry_eq)

lemma catch_retry:
  "handshakeAttempts b + 1 < maxHandshakeAttempts (options b) \<Longrightarrow>
   attemptHandshake_catch b err =
     (b\<lparr>handshakeAttempts := handshakeAttempts b + 1,
        timers := timers b @ [(nextTimer b, AttemptHandshake, handshakeRetryInterval (options b))],
        nextTimer := Suc (nextTimer b),
        handshakeRetryTimer := Some (nextTimer b)\<rparr>, [])"
  by (simp add: attemptHandshake_catch_def Let_def setTimeout_def)

lemma invokeRequests_frame:
  "isReady (fst (invokeRequests b ws)) = isReady b
   \<and> handshakeRetryTimer (fst (invokeRequests b ws)) = handshakeRetryTimer b
   \<and> readyPromise (fst (invokeRequests b ws)) = readyPromise b
   \<and> awaitingReady (fst (invokeRequests b ws)) = awaitingReady b
   \<and> handshakeAttempts (fst (invokeRequests b ws)) = handshakeAttempts b
   \<and> options (fst (invokeRequests b ws)) = options b
   \<and> messageHandlers (fst (invokeRequests b ws)) = messageHandlers b
   \<and> listening (fst (invokeRequests b ws)) = listening b
   \<and> allowedIds (fst (invokeRequests b ws)) = allowedIds b
   \<and> messageType (fst (invokeRequests b ws)) = messageType b
   \<and> communicationId (fst (invokeRequests b ws)) = communicationId b"
proof (induction ws arbitrary: b)
  case Nil
  then show ?case by simp
next
  case (Cons w ws)
  obtain c a d where w: "w = (c, a, d)" by (cases w)
  show ?case
    using Cons.IH [of "fst (invokeRequest b c a d)"]
    by (simp add: w case_prod_beta Let_def)
       (simp add: invokeRequest_def generateId_def setTimeout_def Let_def)
qed

lemma try_ready:
  "isReady (fst (attemptHandshake_try b))
   \<and> handshakeRetryTimer (fst (attemptHandshake_try b)) = None
   \<and> \<not> readyPromise (fst (attemptHandshake_try b))
   \<and> awaitingReady (fst (attemptHandshake_try b)) = []
   \<and> handshakeAttempts (fst (attemptHandshake_try b)) = handshakeAttempts b"
  by (simp add: attemptHandshake_try_def ready_resolved_def invokeRequests_frame
      stopHandshakeRetry_eq)

lemma try_cancels:
  assumes "handshakeRetryTimer b = Some h"
  shows "(h, AttemptHandshake, d) \<notin> set (timers (fst (attemptHandshake_try b)))"
proof -
  let ?s = "(stopHandshakeRetry (b\<lparr>isReady := True\<rparr>))\<lparr>readyPromise := False, awaitingReady := []\<rparr>"
  have "h \<notin> fst ` set (AList.delete h (timers b))"
    by (simp add: AList.delete_eq) force
  then have "(h, AttemptHandshake, d) \<notin> set (timers ?s)"
    using assms by (force simp: stopHandshakeRetry_eq)
  moreover have "\<not> request_timer (h, AttemptHandshake, d)"
    by (simp add: request_timer_def)
  ultimately show ?thesis
    using invokeRequests_timers [of ?s "awaitingReady (stopHandshakeRetry (b\<lparr>isReady := True\<rparr>))"]
    by (auto simp: attemptHandshake_try_def ready_resolved_def)
qed

subsection \<open>Teardown\<close>

text \<open>
  The method \<^verbatim>\<open>destroy\<close> itself, up to its return: the retry timer it remembers and the
  timers of the pending entries are cancelled, the entries are rejected and the table is
  empty, the handlers are cleared, the listener is detached, and a second call made at once
  does nothing.
\<close>

lemma destroy_sync:
  "case destroy b of (b', es) \<Rightarrow>
     handshakeRetryTimer b' = None
     \<and> (\<forall>h. handshakeRetryTimer b = Some h \<longrightarrow> map_of (timers b') h = None)
     \<and> messageHandlers b' = Map.empty
     \<and> (\<forall>(i, p) \<in> set (pendingRequests b). map_of (timers b') (timeout p) = None)
     \<and> es = map (\<lambda>(i, p). Reject (completion p) (Error MSG_DISCONNECTED)) (pendingRequests b)
     \<and> pendingRequests b' = []
     \<and> \<not> listening b'
     \<and> deliver b' msg = (b', [])
     \<and> destroy b' = (b', [])"
proof -
  let ?ts = "case handshakeRetryTimer b of None \<Rightarrow> timers b | Some h \<Rightarrow> AList.delete h (timers b)"
  let ?ts' = "filter (\<lambda>t. fst t \<notin> (timeout \<circ> snd) ` set (pendingRequests b)) ?ts"
  have a: "map_of ?ts' h = None" if "handshakeRetryTimer b = Some h" for h
  proof -
    have "map_of (AList.delete h (timers b)) h = None"
      by (simp add: delete_conv')
    then have "h \<notin> fst ` set ?ts" using that by (simp add: map_of_eq_None_iff)
    then have "h \<notin> fst ` set ?ts'" by auto
    then show ?thesis by (simp add: map_of_eq_None_iff)
  qed
  have b: "map_of ?ts' (timeout p) = None" if "(i, p) \<in> set (pendingRequests b)" for i p
  proof -
    have "\<not> (timeout p \<notin> (timeout \<circ> snd) ` set (pendingRequests b))"
      using that by force
    then show ?thesis by (rule map_of_filter_None)
  qed
  show ?thesis
    using a b by (auto simp: destroy_eq deliver_def)
qed

subsection \<open>What every step keeps\<close>

lemma evolves_refl: "evolves b b"
  by (simp add: evolves_def)

lemma evolves_trans: "evolves a b \<Longrightarrow> evolves b c \<Longrightarrow> evolves a c"
  by (auto simp: evolves_def)

lemma microtasks_quiet:
  "\<forall>e \<in> set es. \<not> probe_settlement e \<Longrightarrow> microtasks b es = (b, [])"
  by (induction b es rule: microtasks.induct) auto

lemma microtasks_append:
  "microtasks b (xs @ ys) =
     (let (b1, e1) = microtasks b xs; (b2, e2) = microtasks b1 ys in (b2, e1 @ e2))"
  by (induction b xs rule: microtasks.induct) (auto simp: Let_def split: prod.splits)

lemma invokeRequest_eq:
  "invokeRequest b c a d =
     (b\<lparr>rand_ctr := Suc (rand_ctr b),
        timers := timers b @ [(nextTimer b, RequestTimedOut (fst (generateId b)) a c,
                               requestTimeout (options b))],
        nextTimer := Suc (nextTimer b),
        pendingRequests :=
          AList.update (fst (generateId b)) \<lparr>completion = InvokeCall c, timeout = nextTimer b\<rparr>
            (pendingRequests b)\<rparr>,
      [PostMessage
         (RequestMessage (messageType b) (communicationId b) (fst (generateId b)) a d True
            (clock b))])"
  by (simp add: invokeRequest_def generateId_def setTimeout_def Let_def)

lemma evolves_invokeRequest: "evolves b (fst (invokeRequest b c a d))"
  by (simp add: invokeRequest_eq evolves_def distinct_update)

lemma evolves_invokeRequests: "evolves b (fst (invokeRequests b ws))"
proof (induction ws arbitrary: b)
  case Nil
  then show ?case by (simp add: evolves_refl)
next
  case (Cons w ws)
  obtain c a d where w: "w = (c, a, d)" by (cases w)
  show ?case
    using evolves_trans [OF evolves_invokeRequest [of b c a d]
        Cons.IH [of "fst (invokeRequest b c a d)"]]
    by (simp add: w case_prod_beta)
qed

lemma evolves_try: "evolves b (fst (attemptHandshake_try b))"
proof -
  let ?s = "(stopHandshakeRetry (b\<lparr>isReady := True\<rparr>))\<lparr>readyPromise := False, awaitingReady := []\<rparr>"
  have "evolves b ?s"
    by (simp add: evolves_def stopHandshakeRetry_eq)
  then show ?thesis
    using evolves_trans [OF _ evolves_invokeRequests [of ?s]]
    by (simp add: attemptHandshake_try_def ready_resolved_def)
qed

lemma evolves_catch: "evolves b (fst (attemptHandshake_catch b err))"
  using catch_exhausted [of b err] catch_retry [of b err]
  by (cases "maxHandshakeAttempts (options b) \<le> handshakeAttempts b + 1")
     (simp_all add: evolves_def)

lemma evolves_microtasks: "evolves b (fst (microtasks b es))"
proof (induction b es rule: microtasks.induct)
  case (1 b)
  then show ?case by (simp add: evolves_refl)
next
  case (2 b v es)
  have "evolves (fst (attemptHandshake_try b)) (fst (microtasks (fst (attemptHandshake_try b)) es))"
    using "2.IH" [OF refl prod.collapse] .
  then show ?case
    using evolves_trans [OF evolves_try [of b]] by (simp add: case_prod_beta)
next
  case (3 b err es)
  have "evolves (fst (attemptHandshake_catch b err))
          (fst (microtasks (fst (attemptHandshake_catch b err)) es))"
    using "3.IH" [OF refl prod.collapse] .
  then show ?case
    using evolves_trans [OF evolves_catch [of b err]] by (simp add: case_prod_beta)
qed simp_all

lemma evolves_settle: "evolves b (fst r) \<Longrightarrow> evolves b (fst (settle r))"
  using evolves_trans [OF _ evolves_microtasks [of "fst r" "snd r"]]
  by (simp add: settle_def case_prod_beta)

lemma sendResponse_eq:
  "sendResponse b rid ok d err =
     (b\<lparr>rand_ctr := Suc (rand_ctr b)\<rparr>,
      [PostMessage (ResponseMessage (messageType b) (communicationId b) (fst (generateId b)) rid ok
         d err (clock b))])"
  by (simp add: sendResponse_def generateId_def)

lemma handleRequestMessage_try_state:
  "fst (handleRequestMessage_try b i n r) = b \<or>
   fst (handleRequestMessage_try b i n r) = b\<lparr>rand_ctr := Suc (rand_ctr b)\<rparr>"
  by (simp add: handleRequestMessage_try_def sendResponse_eq)

lemma handleRequestMessage_catch_state:
  "fst (handleRequestMessage_catch b a i n err) = b \<or>
   fst (handleRequestMessage_catch b a i n err) = b\<lparr>rand_ctr := Suc (rand_ctr b)\<rparr>"
  by (simp add: handleRequestMessage_catch_def sendResponse_eq Let_def split: option.splits)

lemma handleRequestMessage_try_quiet:
  "e \<in> set (snd (handleRequestMessage_try b i n r)) \<Longrightarrow> \<not> probe_settlement e"
  by (auto simp: handleRequestMessage_try_def sendResponse_eq split: if_splits)

lemma handleRequestMessage_catch_quiet:
  "e \<in> set (snd (handleRequestMessage_catch b a i n err)) \<Longrightarrow> \<not> probe_settlement e"
  by (auto simp: handleRequestMessage_catch_def sendResponse_eq Let_def
      split: option.splits if_splits)

lemma handleRequestMessage_resume_state:
  "fst (handleRequestMessage_resume b a n i out) = b \<or>
   fst (handleRequestMessage_resume b a n i out) = b\<lparr>rand_ctr := Suc (rand_ctr b)\<rparr>"
  using handleRequestMessage_try_state [of b i n] handleRequestMessage_catch_state [of b a i n]
  by (cases out) (simp_all add: handleRequestMessage_resume_def)

lemma handleRequestMessage_resume_quiet:
  "e \<in> set (snd (handleRequestMessage_resume b a n i out)) \<Longrightarrow> \<not> probe_settlement e"
  using handleRequestMessage_try_quiet [of e b i n] handleRequestMessage_catch_quiet [of e b a i n]
  by (cases out) (simp_all add: handleRequestMessage_resume_def)

lemma handleRequestMessage_state:
  "fst (handleRequestMessage b m) = b \<or>
   fst (handleRequestMessage b m) = b\<lparr>rand_ctr := Suc (rand_ctr b)\<rparr>"
  using handleRequestMessage_try_state [of b "js_get m ''id''" "js_get m ''needResponse''"]
    handleRequestMessage_catch_state [of b "js_get m ''action''" "js_get m ''id''"
      "js_get m ''needResponse''"]
  by (simp add: handleRequestMessage_def sendResponse_eq Let_def case_prod_beta
      split: option.splits handler_result.splits)

lemma handleRequestMessage_quiet:
  "e \<in> set (snd (handleRequestMessage b m)) \<Longrightarrow> \<not> probe_settlement e"
  using handleRequestMessage_try_quiet [of e b "js_get m ''id''" "js_get m ''needResponse''"]
    handleRequestMessage_catch_quiet [of e b "js_get m ''action''" "js_get m ''id''"
      "js_get m ''needResponse''"]
  by (auto simp: handleRequestMessage_def sendResponse_eq Let_def case_prod_beta
      split: option.splits handler_result.splits if_splits)

lemma handleResponseMessage_eq:
  "handleResponseMessage b m =
     (case table_get (pendingRequests b) (js_get m ''requestId'') of
        None \<Rightarrow> (b, [])
      | Some p \<Rightarrow>
          (b\<lparr>timers := AList.delete (timeout p) (timers b),
             pendingRequests := table_delete (pendingRequests b) (js_get m ''requestId'')\<rparr>,
           [if truthy (js_get m ''success'') then Resolve (completion p) (js_get m ''data'')
            else case to_string (if truthy (js_get m ''error'') then js_get m ''error''
                                 else JStr MSG_UNKNOWN_ERROR) of
                   Some text \<Rightarrow> Reject (completion p) (Error text)
                 | None \<Rightarrow> UncaughtTypeError]))"
  by (simp add: handleResponseMessage_def clearTimeout_def Let_def split: option.splits)



lemma distinct_table_delete:
  "distinct (map fst t) \<Longrightarrow> distinct (map fst (table_delete t k))"
  by (simp add: table_delete_def distinct_delete split: jsval.splits)

lemma evolves_handleResponseMessage: "evolves b (fst (handleResponseMessage b m))"
  by (simp add: handleResponseMessage_eq evolves_def distinct_table_delete split: option.splits)

lemma evolves_handleRequestMessage: "evolves b (fst (handleRequestMessage b m))"
  using handleRequestMessage_state [of b m] by (auto simp: evolves_def)

lemma evolves_handleMessage: "evolves b (fst (handleMessage b m))"
  using evolves_handleRequestMessage [of b m] evolves_handleResponseMessage [of b m]
    evolves_trans [OF evolves_handleRequestMessage [of b m]
      evolves_handleResponseMessage [of "fst (handleRequestMessage b m)" m]]
  by (simp add: handleMessage_def evolves_refl case_prod_beta Let_def)

lemma evolves_probe: "evolves b (fst (sendSingleHandshakeRequest b))"
  by (simp add: handshake_probe evolves_def distinct_update)

lemma evolves_invoke: "evolves b (fst (invoke b a d))"
proof -
  let ?b = "b\<lparr>nextCall := Suc (nextCall b)\<rparr>"
  have 0: "evolves b ?b" by (simp add: evolves_def)
  show ?thesis
  proof (cases "isReady b")
    case True
    then show ?thesis
      using evolves_trans [OF 0 evolves_invokeRequest [of ?b]]
      by (simp add: invoke_def ensureReady_def case_prod_beta Let_def)
  next
    case False
    then show ?thesis
      using evolves_probe [of ?b]
      by (simp add: invoke_def ensureReady_def case_prod_beta performHandshakeWithRetry_def
          attemptHandshake_def evolves_def Let_def)
  qed
qed

lemma evolves_destroy: "evolves b (fst (destroy b))"
  by (simp add: destroy_eq evolves_def)

lemma evolves_timer_fires: "evolves b (fst (timer_fires b h))"
proof (cases "map_of (timers b) h")
  case None
  then show ?thesis by (simp add: timer_fires_def evolves_refl)
next
  case (Some t)
  obtain cb delay where t: "t = (cb, delay)" by (cases t)
  let ?b = "b\<lparr>timers := AList.delete h (timers b)\<rparr>"
  show ?thesis
  proof (cases cb)
    case AttemptHandshake
    then show ?thesis
      using Some t evolves_probe [of ?b]
      by (simp add: timer_fires_def attemptHandshake_def evolves_def)
  qed (use Some t in \<open>simp_all add: timer_fires_def evolves_def distinct_delete\<close>)
qed

lemma evolves_step: "evolves b (fst (step b e))"
proof (cases e)
  case (Invoke a d)
  then show ?thesis using evolves_settle [OF evolves_invoke] by simp
next
  case (Send a d)
  have "evolves b (fst (send b a d))"
    by (simp add: send_def generateId_def evolves_def)
  then show ?thesis using Send evolves_settle by simp
next
  case Destroy
  then show ?thesis using evolves_settle [OF evolves_destroy] by simp
next
  case (Message m)
  have "evolves b (fst (deliver b m))"
    by (simp add: deliver_def evolves_handleMessage evolves_refl)
  then show ?thesis using Message evolves_settle by simp
next
  case (TimerFires h)
  then show ?thesis using evolves_settle [OF evolves_timer_fires] by simp
next
  case (HandlerSettles a n i out)
  have "evolves b (fst (handleRequestMessage_resume b a n i out))"
    using handleRequestMessage_resume_state [of b a n i out] by (auto simp: evolves_def)
  then show ?thesis using HandlerSettles evolves_settle by simp
qed (simp_all add: evolves_def handle_def unhandle_def addAllowedId_def removeAllowedId_def)

lemma evolves_run: "evolves b (fst (run b es))"
proof (induction es arbitrary: b)
  case Nil
  then show ?case by (simp add: evolves_refl)
next
  case (Cons e es)
  show ?case
    using evolves_trans [OF evolves_step [of b e] Cons.IH [of "fst (step b e)"]]
    by (simp add: case_prod_beta)
qed

subsection \<open>A bridge that hears itself\<close>


lemma WebBridge_eq:
  "WebBridge cid opts now rnd =
     \<lparr>communicationId = cid,
      messageType = messageType (WebBridge cid opts now rnd),
      allowedIds = allowedIds (WebBridge cid opts now rnd),
      messageHandlers = [HANDSHAKE_ACTION \<mapsto> handshakeHandler],
      pendingRequests = [],
      isReady = False,
      readyPromise = False,
      handshakeRetryTimer = None,
      handshakeAttempts = 0,
      options = assign_options default_options opts,
      listening = True,
      timers = [],
      nextTimer = 1,
      awaitingReady = [],
      nextCall = 0,
      clock = now,
      rand_src = rnd,
      rand_ctr = 0\<rparr>"
  by (simp add: WebBridge_def setupHandshakeHandler_def setupMessageListener_def handle_def)

lemma self_handshake_run:
  assumes b0: "b0 =
     \<lparr>communicationId = cid, messageType = mt, allowedIds = al,
      messageHandlers = [HANDSHAKE_ACTION \<mapsto> handshakeHandler],
      pendingRequests = [], isReady = False, readyPromise = False,
      handshakeRetryTimer = None, handshakeAttempts = 0, options = os,
      listening = True, timers = [], nextTimer = 1, awaitingReady = [], nextCall = 0,
      clock = now, rand_src = rnd, rand_ctr = 0\<rparr>"
    and al: "al = {} \<or> cid \<in> al"
  shows "(let probe = RequestMessage mt cid (show_int now @ ''-'' @ rnd 0)
                      HANDSHAKE_ACTION (JObj [(''timestamp'', JNum now)]) True now;
            reply = ResponseMessage mt cid (show_int now @ ''-'' @ rnd 1)
                      (JStr (show_int now @ ''-'' @ rnd 0)) True
                      (JObj [(''success'', JBool True), (''timestamp'', JNum now)]) JUndefined now;
            (b1, e1) = step b0 (Invoke a d);
            (b2, e2) = step b1 (Message probe);
            (b3, e3) = step b2 (Message reply)
        in e1 = [PostMessage probe]
           \<and> e2 = [CallHandler (JStr HANDSHAKE_ACTION) (JObj [(''timestamp'', JNum now)]),
                   PostMessage reply]
           \<and> \<not> isReady b2
           \<and> e3 = [Resolve HandshakeProbe
                      (JObj [(''success'', JBool True), (''timestamp'', JNum now)]),
                   PostMessage
                     (RequestMessage mt cid (show_int now @ ''-'' @ rnd 2) a d True now)]
           \<and> isReady b3)"
proof -
  have a: "\<And>b. allowedIds b = al \<Longrightarrow> isAllowedId b (JStr cid)"
    using al by (auto simp: isAllowedId_def)
  show ?thesis
    unfolding b0
    by (simp add: Let_def settle_def invoke_def ensureReady_def performHandshakeWithRetry_def
          attemptHandshake_def handshake_probe generateId_def deliver_def handleMessage_def
          RequestMessage_def ResponseMessage_def a handleRequestMessage_def
          handleRequestMessage_try_def handlers_get_def handshakeHandler_def sendResponse_eq handleResponseMessage_eq
          table_get_def table_delete_def attemptHandshake_try_def stopHandshakeRetry_eq
          ready_resolved_def invokeRequest_eq HANDSHAKE_ACTION_def numeral_2_eq_2)
qed

subsection \<open>The phases of the handshake are kept by every step\<close>

lemmas phase_defs = phases_def steady_def idle_def retry_wait_def probing_def

lemma phases_cong:
  "timers b' = timers b \<Longrightarrow> pendingRequests b' = pendingRequests b \<Longrightarrow> isReady b' = isReady b
   \<Longrightarrow> readyPromise b' = readyPromise b \<Longrightarrow> phases b' = phases b"
  by (simp add: phase_defs)

lemma phases_in_flight: "phases b \<Longrightarrow> in_flight b \<le> 1 \<and> (in_flight b = 1 \<longrightarrow> readyPromise b)"
  by (auto simp: phase_defs in_flight_def list_all_iff filter_empty_conv request_timer_def)

lemma list_all_update:
  "list_all P ps \<Longrightarrow> P (k, v) \<Longrightarrow> list_all P (AList.update k v ps)"
  by (induction ps) auto

lemma list_all_delete: "list_all P ps \<Longrightarrow> list_all P (AList.delete k ps)"
  by (induction ps) auto

lemma steady_invokeRequest: "steady b \<Longrightarrow> steady (fst (invokeRequest b c a d))"
  by (simp add: steady_def invokeRequest_eq list_all_update nonprobe_def request_timer_def)

lemma steady_invokeRequests: "steady b \<Longrightarrow> steady (fst (invokeRequests b ws))"
proof (induction ws arbitrary: b)
  case Nil
  then show ?case by simp
next
  case (Cons w ws)
  obtain c a d where w: "w = (c, a, d)" by (cases w)
  show ?case
    using Cons.IH [OF steady_invokeRequest [OF Cons.prems, of c a d]]
    by (simp add: w case_prod_beta)
qed

lemma try_settled: "probe_settled b \<Longrightarrow> steady (fst (attemptHandshake_try b))"
proof -
  assume s: "probe_settled b"
  let ?s = "(stopHandshakeRetry (b\<lparr>isReady := True\<rparr>))\<lparr>readyPromise := False, awaitingReady := []\<rparr>"
  have "steady ?s"
    using s by (cases "handshakeRetryTimer b")
      (simp_all add: probe_settled_def steady_def stopHandshakeRetry_eq)
  then show ?thesis
    using steady_invokeRequests [of ?s] by (simp add: attemptHandshake_try_def ready_resolved_def)
qed

lemma catch_settled:
  assumes "probe_settled b"
  shows "idle (fst (attemptHandshake_catch b err)) \<or> retry_wait (fst (attemptHandshake_catch b err))"
proof (cases "maxHandshakeAttempts (options b) \<le> handshakeAttempts b + 1")
  case True
  then show ?thesis
    using assms by (cases "handshakeRetryTimer b")
      (simp_all add: catch_exhausted probe_settled_def idle_def)
next
  case False
  then have "handshakeAttempts b + 1 < maxHandshakeAttempts (options b)" by simp
  then show ?thesis
    using assms by (simp add: catch_retry probe_settled_def retry_wait_def)
qed

lemma settle_phases: "after_sync r \<Longrightarrow> phases (fst (settle r))"
proof -
  assume "after_sync r"
  then consider
      (quiet) "phases (fst r)" "\<forall>e \<in> set (snd r). \<not> probe_settlement e"
    | (probe) xs x where "probe_settled (fst r)" "snd r = xs @ [x]"
        "\<forall>e \<in> set xs. \<not> probe_settlement e" "probe_settlement x"
    by (auto simp: after_sync_def)
  then show ?thesis
  proof cases
    case quiet
    then show ?thesis
      by (simp add: settle_def case_prod_beta microtasks_quiet)
  next
    case probe
    have m: "microtasks (fst r) (snd r) = microtasks (fst r) [x]"
      using probe(2,3) by (simp add: microtasks_append microtasks_quiet)
    show ?thesis
    proof (cases x rule: probe_settlement.cases)
      case (1 v)
      then show ?thesis
        using try_settled [OF probe(1)] m
        by (simp add: settle_def case_prod_beta phases_def)
    next
      case (2 err)
      then show ?thesis
        using catch_settled [OF probe(1), of err] m
        by (auto simp: settle_def case_prod_beta phases_def)
    qed (use probe(4) in simp_all)
  qed
qed


lemma probe_settlement_iff [simp]:
  "probe_settlement (Reject c e) = (c = HandshakeProbe)"
  "probe_settlement (Resolve c v) = (c = HandshakeProbe)"
  by (cases c; simp)+

lemma after_sync_quiet: "phases b \<Longrightarrow> \<forall>e \<in> set es. \<not> probe_settlement e \<Longrightarrow> after_sync (b, es)"
  by (simp add: after_sync_def)

lemma invoke_ready:
  "isReady b \<Longrightarrow>
   invoke b a d = invokeRequest (b\<lparr>nextCall := Suc (nextCall b)\<rparr>) (nextCall b) a d"
  by (simp add: invoke_def ensureReady_def Let_def case_prod_beta)

lemma invoke_waiting:
  "\<not> isReady b \<Longrightarrow> readyPromise b \<Longrightarrow>
   invoke b a d =
     (b\<lparr>nextCall := Suc (nextCall b), awaitingReady := awaitingReady b @ [(nextCall b, a, d)]\<rparr>, [])"
  by (simp add: invoke_def ensureReady_def Let_def)

lemma invoke_starts:
  "\<not> isReady b \<Longrightarrow> \<not> readyPromise b \<Longrightarrow>
   invoke b a d =
     (b\<lparr>nextCall := Suc (nextCall b),
        rand_ctr := Suc (rand_ctr b),
        timers := timers b @ [(nextTimer b, HandshakeTimedOut (fst (generateId b)),
                               handshakeTimeout (options b))],
        nextTimer := Suc (nextTimer b),
        pendingRequests :=
          AList.update (fst (generateId b)) \<lparr>completion = HandshakeProbe, timeout = nextTimer b\<rparr>
            (pendingRequests b),
        readyPromise := True,
        awaitingReady := awaitingReady b @ [(nextCall b, a, d)]\<rparr>,
      [PostMessage
         (RequestMessage (messageType b) (communicationId b) (fst (generateId b)) HANDSHAKE_ACTION
            (JObj [(''timestamp'', JNum (clock b))]) True (clock b))])"
  by (simp add: invoke_def ensureReady_def Let_def performHandshakeWithRetry_def
      attemptHandshake_def handshake_probe generateId_def)

lemma invoke_after: "phases b \<Longrightarrow> after_sync (invoke b a d)"
proof -
  assume p: "phases b"
  show ?thesis
  proof (cases "isReady b")
    case True
    then have "steady (b\<lparr>nextCall := Suc (nextCall b)\<rparr>)"
      using p by (simp add: phase_defs)
    then show ?thesis
      using True steady_invokeRequest [of "b\<lparr>nextCall := Suc (nextCall b)\<rparr>" "nextCall b" a d]
      by (simp add: invoke_ready after_sync_def phases_def) (simp add: invokeRequest_eq)
  next
    case False
    show ?thesis
    proof (cases "readyPromise b")
      case True
      then show ?thesis
        using False p by (simp add: invoke_waiting after_sync_def phase_defs)
    next
      case r: False
      then have "idle b" using False p by (auto simp: phase_defs)
      then show ?thesis
        using False r by (simp add: invoke_starts after_sync_def phase_defs)
    qed
  qed
qed

lemma destroy_after: "phases b \<Longrightarrow> after_sync (destroy b)"
proof -
  assume p: "phases b"
  have sub: "list_all request_timer (filter P (case handshakeRetryTimer b of None \<Rightarrow> timers b
               | Some h \<Rightarrow> AList.delete h (timers b)))"
    if "list_all request_timer (timers b)" for P
    using that by (cases "handshakeRetryTimer b") (auto simp: list_all_iff AList.delete_eq)
  from p consider (steady) "steady b" | (idle) "idle b" | (retry) "retry_wait b" | (probing) "probing b"
    by (auto simp: phases_def)
  then show ?thesis
  proof cases
    case steady
    then show ?thesis
      using sub by (auto simp: destroy_eq after_sync_def phases_def steady_def list_all_iff
          nonprobe_def)
  next
    case idle
    then show ?thesis
      by (cases "handshakeRetryTimer b") (simp_all add: destroy_eq after_sync_def phase_defs)
  next
    case retry
    then show ?thesis
      by (cases "handshakeRetryTimer b")
        (auto simp: destroy_eq after_sync_def phase_defs AList.delete_eq split: if_splits)
  next
    case probing
    then show ?thesis
      by (cases "handshakeRetryTimer b")
        (auto simp: destroy_eq after_sync_def probing_def probe_settled_def AList.delete_eq)
  qed
qed


lemma after_sync_prepend:
  "after_sync (b, es) \<Longrightarrow> \<forall>e \<in> set pre. \<not> probe_settlement e \<Longrightarrow> after_sync (b, pre @ es)"
proof -
  assume a: "after_sync (b, es)" and q: "\<forall>e \<in> set pre. \<not> probe_settlement e"
  from a consider
      (quiet) "phases b" "\<forall>e \<in> set es. \<not> probe_settlement e"
    | (probe) xs x where "probe_settled b" "es = xs @ [x]"
        "\<forall>e \<in> set xs. \<not> probe_settlement e" "probe_settlement x"
    by (auto simp: after_sync_def)
  then show ?thesis
  proof cases
    case quiet
    then show ?thesis using q by (auto simp: after_sync_def)
  next
    case probe
    have "pre @ es = (pre @ xs) @ [x]" using probe(2) by simp
    moreover have "\<forall>e \<in> set (pre @ xs). \<not> probe_settlement e" using probe(3) q by auto
    ultimately show ?thesis
      using probe(1,4) unfolding after_sync_def by (metis fst_conv snd_conv)
  qed
qed

lemma table_get_SomeD: "table_get t k = Some p \<Longrightarrow> \<exists>i. k = JStr i \<and> (i, p) \<in> set t"
  by (cases k) (auto simp: table_get_def dest: map_of_SomeD)

lemma resp_after: "phases b \<Longrightarrow> after_sync (handleResponseMessage b m)"
proof -
  assume p: "phases b"
  show ?thesis
  proof (cases "table_get (pendingRequests b) (js_get m ''requestId'')")
    case None
    then show ?thesis using p by (simp add: handleResponseMessage_eq after_sync_def)
  next
    case (Some e)
    obtain i where i: "js_get m ''requestId'' = JStr i" "(i, e) \<in> set (pendingRequests b)"
      using table_get_SomeD [OF Some] by auto
    from p consider (steady) "steady b" | (idle) "idle b" | (retry) "retry_wait b"
      | (probing) "probing b"
      by (auto simp: phases_def)
    then show ?thesis
    proof cases
      case steady
      then have "completion e \<noteq> HandshakeProbe"
        using i(2) by (auto simp: steady_def list_all_iff nonprobe_def)
      moreover have "steady (b\<lparr>timers := AList.delete (timeout e) (timers b),
             pendingRequests := AList.delete i (pendingRequests b)\<rparr>)"
        using steady by (simp add: steady_def list_all_delete)
      ultimately show ?thesis
        using Some i(1)
        by (simp add: handleResponseMessage_eq after_sync_def phases_def table_delete_def
            split: option.splits)
    next
      case idle
      then show ?thesis using i(2) by (simp add: idle_def)
    next
      case retry
      then show ?thesis using i(2) by (simp add: retry_wait_def)
    next
      case probing
      then obtain h d where "timers b = [(h, HandshakeTimedOut i, d)]"
        "pendingRequests b = [(i, \<lparr>completion = HandshakeProbe, timeout = h\<rparr>)]"
        "e = \<lparr>completion = HandshakeProbe, timeout = h\<rparr>" "\<not> isReady b" "readyPromise b"
        using i(2) by (auto simp: probing_def)
      then show ?thesis
        using Some i(1)
        by (simp add: handleResponseMessage_eq after_sync_def probe_settled_def table_delete_def
            phases_def idle_def split: option.splits)
    qed
  qed
qed

lemma handleMessage_after: "phases b \<Longrightarrow> after_sync (handleMessage b m)"
proof -
  assume p: "phases b"
  let ?b1 = "fst (handleRequestMessage b m)"
  have p1: "phases ?b1"
    using handleRequestMessage_state [of b m] p phases_cong [of ?b1 b] by auto
  have q: "\<forall>e \<in> set (snd (handleRequestMessage b m)). \<not> probe_settlement e"
    using handleRequestMessage_quiet by blast
  have r1: "after_sync (handleResponseMessage ?b1 m)" using p1 by (rule resp_after)
  have r: "after_sync (handleResponseMessage b m)" using p by (rule resp_after)
  have both: "after_sync (fst (handleResponseMessage ?b1 m),
      snd (handleRequestMessage b m) @ snd (handleResponseMessage ?b1 m))"
    using after_sync_prepend [OF _ q, of "fst (handleResponseMessage ?b1 m)"
        "snd (handleResponseMessage ?b1 m)"] r1 by simp
  have only: "after_sync (handleRequestMessage b m)"
    using p1 q by (simp add: after_sync_def)
  show ?thesis
    using p both only r
    by (simp add: handleMessage_def case_prod_beta Let_def after_sync_def [of "(b, [])"])
qed

lemma timer_after: "phases b \<Longrightarrow> after_sync (timer_fires b h)"
proof -
  assume p: "phases b"
  show ?thesis
  proof (cases "map_of (timers b) h")
    case None
    then show ?thesis using p by (simp add: timer_fires_def after_sync_def)
  next
    case (Some t)
    obtain cb dl where t: "t = (cb, dl)" by (cases t)
    have mem: "(h, cb, dl) \<in> set (timers b)" using Some t by (simp add: map_of_SomeD)
    from p consider (steady) "steady b" | (idle) "idle b" | (retry) "retry_wait b"
      | (probing) "probing b"
      by (auto simp: phases_def)
    then show ?thesis
    proof cases
      case steady
      then have "request_timer (h, cb, dl)" using mem by (auto simp: steady_def list_all_iff)
      then obtain i a c where cb: "cb = RequestTimedOut i a c"
        by (cases cb) (simp_all add: request_timer_def)
      have "steady (b\<lparr>timers := AList.delete h (timers b),
             pendingRequests := AList.delete i (pendingRequests b)\<rparr>)"
        using steady by (simp add: steady_def list_all_delete)
      then show ?thesis
        using Some t cb by (simp add: timer_fires_def after_sync_def phases_def)
    next
      case idle
      then show ?thesis using mem by (simp add: idle_def)
    next
      case retry
      then have "timers b = [(h, AttemptHandshake, dl)]" "cb = AttemptHandshake"
        "pendingRequests b = []" "\<not> isReady b" "readyPromise b"
        using mem by (auto simp: retry_wait_def)
      then show ?thesis
        using Some t
        by (simp add: timer_fires_def attemptHandshake_def handshake_probe after_sync_def
            phases_def probing_def Let_def generateId_def)
    next
      case probing
      then obtain i where "timers b = [(h, HandshakeTimedOut i, dl)]" "cb = HandshakeTimedOut i"
        "pendingRequests b = [(i, \<lparr>completion = HandshakeProbe, timeout = h\<rparr>)]"
        "\<not> isReady b" "readyPromise b"
        using mem by (auto simp: probing_def)
      then show ?thesis
        using Some t by (simp add: timer_fires_def after_sync_def probe_settled_def)
    qed
  qed
qed

lemma step_phases: "phases b \<Longrightarrow> phases (fst (step b e))"
proof (cases e)
  case (Invoke a d)
  assume "phases b"
  then show ?thesis using Invoke settle_phases [OF invoke_after] by simp
next
  case (Send a d)
  assume p: "phases b"
  have "phases (b\<lparr>rand_ctr := Suc (rand_ctr b)\<rparr>)"
    using p phases_cong [of "b\<lparr>rand_ctr := Suc (rand_ctr b)\<rparr>" b] by simp
  then have "after_sync (send b a d)"
    by (simp add: send_def generateId_def after_sync_def)
  then show ?thesis using Send settle_phases by simp
next
  case Destroy
  assume "phases b"
  then show ?thesis using Destroy settle_phases [OF destroy_after] by simp
next
  case (Message m)
  assume p: "phases b"
  then have "after_sync (deliver b m)"
    using handleMessage_after [OF p, of m] by (simp add: deliver_def after_sync_def)
  then show ?thesis using Message settle_phases by simp
next
  case (TimerFires h)
  assume "phases b"
  then show ?thesis using TimerFires settle_phases [OF timer_after] by simp
next
  case (Handle a h)
  assume "phases b"
  then show ?thesis using Handle phases_cong [of "handle b a h" b] by (simp add: handle_def)
next
  case (Unhandle a)
  assume "phases b"
  then show ?thesis using Unhandle phases_cong [of "unhandle b a" b] by (simp add: unhandle_def)
next
  case (AddAllowedId c)
  assume "phases b"
  then show ?thesis
    using AddAllowedId phases_cong [of "addAllowedId b c" b] by (simp add: addAllowedId_def)
next
  case (RemoveAllowedId c)
  assume "phases b"
  then show ?thesis
    using RemoveAllowedId phases_cong [of "removeAllowedId b c" b]
    by (simp add: removeAllowedId_def)
next
  case (HandlerSettles a n i out)
  assume p: "phases b"
  let ?r = "handleRequestMessage_resume b a n i out"
  have "phases (fst ?r)"
    using handleRequestMessage_resume_state [of b a n i out] p phases_cong [of "fst ?r" b] by auto
  moreover have "\<forall>e \<in> set (snd ?r). \<not> probe_settlement e"
    using handleRequestMessage_resume_quiet by blast
  ultimately have "after_sync ?r" by (simp add: after_sync_def)
  then show ?thesis using HandlerSettles settle_phases by simp
next
  case (ClockShows t)
  assume "phases b"
  then show ?thesis using ClockShows phases_cong [of "b\<lparr>clock := t\<rparr>" b] by simp
qed

lemma run_phases: "phases b \<Longrightarrow> phases (fst (run b es))"
proof (induction es arbitrary: b)
  case Nil
  then show ?case by simp
next
  case (Cons e es)
  show ?case
    using Cons.IH [OF step_phases [OF Cons.prems, of e]] by (simp add: case_prod_beta)
qed

lemma WebBridge_phases: "phases (WebBridge cid opts now rnd)"
  by (subst WebBridge_eq) (simp add: phases_def idle_def)


lemma settle_quiet: "\<forall>e \<in> set es. \<not> probe_settlement e \<Longrightarrow> settle (b, es) = (b, es)"
  by (simp add: settle_def microtasks_quiet)

lemma run_waiting:
  "\<not> isReady b \<Longrightarrow> readyPromise b \<Longrightarrow> snd (run b (map (\<lambda>c. Invoke (fst c) (snd c)) cs)) = []"
proof (induction cs arbitrary: b)
  case Nil
  then show ?case by simp
next
  case (Cons c cs)
  obtain a d where c: "c = (a, d)" by (cases c)
  let ?b = "b\<lparr>nextCall := Suc (nextCall b), awaitingReady := awaitingReady b @ [(nextCall b, a, d)]\<rparr>"
  have "step b (Invoke a d) = (?b, [])"
    using Cons.prems by (simp add: invoke_waiting settle_quiet)
  moreover have "snd (run ?b (map (\<lambda>c. Invoke (fst c) (snd c)) cs)) = []"
    using Cons.prems by (intro Cons.IH) simp_all
  ultimately show ?case by (simp add: c case_prod_beta)
qed

subsection \<open>Readiness is only set by a resolved probe\<close>

lemma catch_isReady: "isReady (fst (attemptHandshake_catch b err)) = isReady b"
proof (cases "maxHandshakeAttempts (options b) \<le> handshakeAttempts b + 1")
  case True
  then show ?thesis by (simp add: catch_exhausted)
next
  case False
  then have "handshakeAttempts b + 1 < maxHandshakeAttempts (options b)" by simp
  then show ?thesis by (simp add: catch_retry)
qed

lemma microtasks_isReady:
  "isReady (fst (microtasks b es)) \<Longrightarrow> isReady b \<or> (\<exists>v. Resolve HandshakeProbe v \<in> set es)"
proof (induction b es rule: microtasks.induct)
  case (3 b err es)
  have "isReady (fst (microtasks (fst (attemptHandshake_catch b err)) es))"
    using "3.prems" by (simp add: case_prod_beta)
  then show ?case
    using "3.IH" [OF refl prod.collapse] by (auto simp: catch_isReady)
qed auto

lemma handleMessage_isReady: "isReady (fst (handleMessage b m)) = isReady b"
proof -
  have 1: "isReady (fst (handleRequestMessage c m)) = isReady c" for c
    using handleRequestMessage_state [of c m] by auto
  have 2: "isReady (fst (handleResponseMessage c m)) = isReady c" for c
    by (simp add: handleResponseMessage_eq split: option.splits)
  show ?thesis
    by (simp add: handleMessage_def case_prod_beta Let_def 1 2)
qed

lemma handleMessage_resolves:
  assumes "Resolve HandshakeProbe v \<in> set (snd (handleMessage b m))"
  shows "\<exists>p. table_get (pendingRequests b) (js_get m ''requestId'') = Some p
             \<and> completion p = HandshakeProbe \<and> truthy (js_get m ''success'')"
proof -
  let ?b1 = "fst (handleRequestMessage b m)"
  have q: "Resolve HandshakeProbe v \<notin> set (snd (handleRequestMessage b m))"
    using handleRequestMessage_quiet [of "Resolve HandshakeProbe v" b m] by auto
  have same: "pendingRequests ?b1 = pendingRequests b"
    using handleRequestMessage_state [of b m] by auto
  have r: "\<exists>p. table_get (pendingRequests c) (js_get m ''requestId'') = Some p
             \<and> completion p = HandshakeProbe \<and> truthy (js_get m ''success'')"
    if "Resolve HandshakeProbe v \<in> set (snd (handleResponseMessage c m))" for c
    using that by (auto simp: handleResponseMessage_eq split: option.splits if_splits)
  have "Resolve HandshakeProbe v \<in> set (snd (handleResponseMessage b m))
        \<or> Resolve HandshakeProbe v \<in> set (snd (handleResponseMessage ?b1 m))"
    using assms q
    by (auto simp: handleMessage_def case_prod_beta Let_def split: if_splits)
  then show ?thesis
    using r [of b] r [of ?b1] same by auto
qed

lemma ready_only_by_probe:
  assumes "\<not> isReady b" "isReady (fst (step b e))"
  shows "\<exists>msg p. e = Message msg \<and> listening b
            \<and> table_get (pendingRequests b) (js_get msg ''requestId'') = Some p
            \<and> completion p = HandshakeProbe \<and> truthy (js_get msg ''success'')"
proof -
  have sync: "isReady (fst r) = isReady b \<Longrightarrow> fst (step b e) = fst (settle r) \<Longrightarrow>
      \<exists>v. Resolve HandshakeProbe v \<in> set (snd r)" for r
    using assms microtasks_isReady [of "fst r" "snd r"]
    by (simp add: settle_def case_prod_beta)
  show ?thesis
  proof (cases e)
    case (Invoke a d)
    have "isReady (fst (invoke b a d)) = isReady b
          \<and> (\<forall>v. Resolve HandshakeProbe v \<notin> set (snd (invoke b a d)))"
      using assms(1) by (cases "readyPromise b") (simp_all add: invoke_waiting invoke_starts)
    then show ?thesis using sync [of "invoke b a d"] Invoke by auto
  next
    case (Send a d)
    have "isReady (fst (send b a d)) = isReady b
          \<and> (\<forall>v. Resolve HandshakeProbe v \<notin> set (snd (send b a d)))"
      by (simp add: send_def generateId_def)
    then show ?thesis using sync [of "send b a d"] Send by auto
  next
    case Destroy
    have "isReady (fst (destroy b)) = isReady b
          \<and> (\<forall>v. Resolve HandshakeProbe v \<notin> set (snd (destroy b)))"
      by (auto simp: destroy_eq)
    then show ?thesis using sync [of "destroy b"] Destroy by auto
  next
    case (TimerFires h)
    have "isReady (fst (timer_fires b h)) = isReady b
          \<and> (\<forall>v. Resolve HandshakeProbe v \<notin> set (snd (timer_fires b h)))"
      by (auto simp: timer_fires_def attemptHandshake_def handshake_probe Let_def
          split: option.splits timer_callback.splits)
    then show ?thesis using sync [of "timer_fires b h"] TimerFires by auto
  next
    case (Message m)
    have i: "isReady (fst (deliver b m)) = isReady b"
      by (simp add: deliver_def handleMessage_isReady)
    then obtain v where v: "Resolve HandshakeProbe v \<in> set (snd (deliver b m))"
      using sync [of "deliver b m"] Message by auto
    then have l: "listening b" by (auto simp: deliver_def split: if_splits)
    then show ?thesis
      using handleMessage_resolves [of v b m] v Message by (simp add: deliver_def)
  next
    case (HandlerSettles a n i out)
    let ?r = "handleRequestMessage_resume b a n i out"
    have "isReady (fst ?r) = isReady b"
      using handleRequestMessage_resume_state [of b a n i out] by auto
    moreover have "\<forall>v. Resolve HandshakeProbe v \<notin> set (snd ?r)"
      using handleRequestMessage_resume_quiet [of _ b a n i out] by fastforce
    ultimately show ?thesis using sync [of ?r] HandlerSettles by auto
  qed (use assms in \<open>simp_all add: handle_def unhandle_def addAllowedId_def removeAllowedId_def\<close>)
qed

subsection \<open>The example states\<close>

lemma to_string_examples:
  "to_string (JObj [(''x'', JNum 1)]) = Some ''[object Object]''"
  "to_string (JObj [(''toString'', JNum 1)]) = None"
  "to_string (JArr [JNum 1, JNull, JStr ''a'', JArr [JBool True, JUndefined]]) = Some ''1,,a,true,''"
  "to_string (JArr [JNum 1, JObj [(''toString'', JNull)]]) = None"
  "to_string (JNum (- 42)) = Some ''-42''"
  by code_simp+

lemma bridge_a_fields:
  "messageType bridge_a = ''web-bridge''" "allowedIds bridge_a = {}"
  "communicationId bridge_a = ''a''" "options bridge_a = default_options"
  "messageHandlers bridge_a = [HANDSHAKE_ACTION \<mapsto> handshakeHandler]"
  "pendingRequests bridge_a = []" "timers bridge_a = []" "listening bridge_a"
  "\<not> isReady bridge_a" "\<not> readyPromise bridge_a" "handshakeAttempts bridge_a = 0"
  "handshakeRetryTimer bridge_a = None" "awaitingReady bridge_a = []"
  by (simp_all add: bridge_a_def WebBridge_def no_options_def DEFAULT_MESSAGE_TYPE_def
      setupHandshakeHandler_def setupMessageListener_def handle_def assign_options_def)


lemma bridge_b_id: "fst (generateId bridge_b) = ''2000-s0''"
  by code_simp

lemma bridge_only_b_fields:
  "messageType bridge_only_b = ''web-bridge''" "allowedIds bridge_only_b = {''b''}"
  "maxHandshakeAttempts (options bridge_only_b) = 1" "handshakeAttempts bridge_only_b = 0"
  "awaitingReady bridge_only_b = []"
  by (simp_all add: bridge_only_b_def WebBridge_def no_options_def DEFAULT_MESSAGE_TYPE_def
      setupHandshakeHandler_def setupMessageListener_def handle_def assign_options_def)

lemma ex_probing_fields:
  "handshakeAttempts ex_probing = 0" "maxHandshakeAttempts (options ex_probing) = 10"
  "nextTimer ex_probing = 2" "handshakeRetryInterval (options ex_probing) = 1000"
  "timers ex_probing = [(1, HandshakeTimedOut ''1000-r0'', 500)]"
  "awaitingReady ex_probing = [(0, ''ping'', JNull)]"
  by code_simp+

lemma ex_single_fields:
  "handshakeAttempts ex_single = 0" "maxHandshakeAttempts (options ex_single) = 1"
  "awaitingReady ex_single = [(0, ''ping'', JNull)]"
  by code_simp+

lemma ex_retrying_fields:
  "handshakeRetryTimer ex_retrying = Some 2"
  "pendingRequests ex_retrying =
     [(''1000-r1'', \<lparr>completion = HandshakeProbe, timeout = 3\<rparr>)]"
  "timers ex_retrying = [(3, HandshakeTimedOut ''1000-r1'', 500)]"
  by code_simp+

lemma ex_ready_fields:
  "pendingRequests ex_ready = [(''1000-r1'', \<lparr>completion = InvokeCall 0, timeout = 2\<rparr>)]"
  "isReady ex_ready" "messageType ex_ready = ''web-bridge''" "allowedIds ex_ready = {}"
  "snd (run bridge_a [Invoke ''ping'' JNull, Message probe_reply_b]) =
     [PostMessage probe_a,
      Resolve HandshakeProbe (JObj [(''success'', JBool True), (''timestamp'', JNum 2000)]),
      PostMessage request_a]"
  by code_simp+

lemma ex_failed_fields:
  "maxHandshakeAttempts (options ex_failed) = 1"
  "handshakeAttempts ex_failed = 1"
  "awaitingReady ex_failed_waiting = [(1, ''pong'', JNull)]"
  by code_simp+

lemma show_examples:
  "show_int 1000 = ''1000''" "show_nat 0 = ''0''" "show_nat (Suc 0) = ''1''" "show_nat 2 = ''2''"
  by code_simp+



lemma shared_examples:
  "\<not> isReady ex_probing" "readyPromise ex_probing" "in_flight ex_probing = 1"
  "map_of (timers ex_retry_wait) 2 = Some (AttemptHandshake, 1000)"
  "messageType ex_retry_wait = ''web-bridge''" "communicationId ex_retry_wait = ''a''"
  "fst (generateId ex_retry_wait) = ''1000-r1''" "clock ex_retry_wait = 1000"
  "fst (generateId bridge_a) = ''1000-r0''" "clock bridge_a = 1000"
  by code_simp+

lemma failed_examples:
  "\<not> isReady ex_single" "maxHandshakeAttempts (options ex_single) \<le> handshakeAttempts ex_single + 1"
  "awaitingReady ex_single = [(0, ''ping'', JNull)]"
  "handshake_state_of ex_failed = FAILED" "nextCall ex_failed = 1" "awaitingReady ex_failed = []"
  "messageType ex_failed = ''web-bridge''" "communicationId ex_failed = ''a''"
  "fst (generateId ex_failed) = ''1000-r1''" "clock ex_failed = 1000"
  "\<not> isReady ex_probing" "isReady (fst (settle (deliver ex_probing probe_reply_b)))"
  by code_simp+

lemma ex_probing_run: "fst (settle (invoke bridge_a ''ping'' JNull)) = ex_probing"
  by (simp add: ex_probing_def)



text \<open>
  \<open>a\<close> hears its own request for \<open>echo\<close> and its own answer before the answer of \<open>b\<close>:
  its call is rejected, and the answer of \<open>b\<close> finds no entry.
\<close>

lemma self_answer:
  "snd (run (fst ex_echo_invoked) [Message echo_request]) = [PostMessage self_reply]"
  "snd (run (fst ex_echo_invoked) [Message echo_request, Message self_reply, Message echo_reply]) =
     [PostMessage self_reply, Reject (InvokeCall 1) (Error (MSG_NO_HANDLER @ ''echo''))]"
  by code_simp+

section \<open>The properties\<close>

subsection \<open>C1: the round trip of a payload\<close>




subsection \<open>C2: after the attempts are exhausted\<close>

text \<open>
  C2. When a failed attempt brings the counter to the maximum, the bridge is in \<open>FAILED\<close>
  and every caller awaiting readiness is rejected with an error that wraps the text of the
  probe's error. From \<open>FAILED\<close> on the bridge is never in \<open>NOT_READY\<close> again, and whenever
  a probe fails in a later state every caller then awaiting readiness is rejected in the
  same way: a later call of \<^verbatim>\<open>invoke\<close> in \<open>FAILED\<close> starts a new sequence with one
  probe, and the failure of that probe rejects the call and leaves the bridge in
  \<open>FAILED\<close>. The only step that makes a bridge ready is the delivery of a success
  response to a pending handshake probe.
\<close>

theorem failed_state:
  "(\<not> isReady b \<and> maxHandshakeAttempts (options b) \<le> handshakeAttempts b + 1 \<longrightarrow>
      handshake_state_of (fst (attemptHandshake_catch b err)) = FAILED
      \<and> awaitingReady (fst (attemptHandshake_catch b err)) = []
      \<and> snd (attemptHandshake_catch b err) =
          map (\<lambda>(call, action, data).
                 Reject (InvokeCall call) (Error (MSG_HANDSHAKE_FAILED @ Error_toString err)))
            (awaitingReady b))
   \<and> (handshake_state_of b = FAILED \<longrightarrow>
        handshake_state_of (fst (run b evs)) \<noteq> NOT_READY
        \<and> snd (attemptHandshake_catch (fst (run b evs)) err) =
            map (\<lambda>(call, action, data).
                   Reject (InvokeCall call) (Error (MSG_HANDSHAKE_FAILED @ Error_toString err)))
              (awaitingReady (fst (run b evs)))
        \<and> handshake_state_of (fst (step b (Invoke a d))) = HANDSHAKING
        \<and> snd (step b (Invoke a d)) =
            [PostMessage
               (RequestMessage (messageType b) (communicationId b) (fst (generateId b))
                  HANDSHAKE_ACTION (JObj [(''timestamp'', JNum (clock b))]) True (clock b))]
        \<and> awaitingReady (fst (step b (Invoke a d))) = awaitingReady b @ [(nextCall b, a, d)]
        \<and> handshake_state_of (fst (attemptHandshake_catch (fst (step b (Invoke a d))) err)) = FAILED
        \<and> snd (attemptHandshake_catch (fst (step b (Invoke a d))) err) =
            map (\<lambda>(call, action, data).
                   Reject (InvokeCall call) (Error (MSG_HANDSHAKE_FAILED @ Error_toString err)))
              (awaitingReady b @ [(nextCall b, a, d)]))
   \<and> (\<not> isReady b \<and> isReady (fst (step b e)) \<longrightarrow>
        (\<exists>msg p. e = Message msg \<and> listening b
            \<and> table_get (pendingRequests b) (js_get msg ''requestId'') = Some p
            \<and> completion p = HandshakeProbe \<and> truthy (js_get msg ''success'')))"
proof -
  let ?rej = "\<lambda>ws. map (\<lambda>(call, action, data).
                 Reject (InvokeCall call) (Error (MSG_HANDSHAKE_FAILED @ Error_toString err))) ws"
  have ex: "handshake_state_of (fst (attemptHandshake_catch c err)) = FAILED
      \<and> awaitingReady (fst (attemptHandshake_catch c err)) = []
      \<and> snd (attemptHandshake_catch c err) = ?rej (awaitingReady c)"
    if "\<not> isReady c" "maxHandshakeAttempts (options c) \<le> handshakeAttempts c + 1" for c
    using that by (simp add: catch_exhausted handshake_state_of_def)
  have later: "handshake_state_of (fst (run b evs)) \<noteq> NOT_READY
      \<and> snd (attemptHandshake_catch (fst (run b evs)) err) = ?rej (awaitingReady (fst (run b evs)))"
    if "handshake_state_of b = FAILED"
  proof -
    have "maxHandshakeAttempts (options b) \<le> handshakeAttempts b"
      using that by (simp add: handshake_state_of_def split: if_splits)
    then have "maxHandshakeAttempts (options (fst (run b evs))) \<le> handshakeAttempts (fst (run b evs))"
      using evolves_run [of b evs] by (simp add: evolves_def)
    then show ?thesis
      by (simp add: catch_exhausted handshake_state_of_def)
  qed
  have again: "handshake_state_of (fst (step b (Invoke a d))) = HANDSHAKING
        \<and> snd (step b (Invoke a d)) =
            [PostMessage
               (RequestMessage (messageType b) (communicationId b) (fst (generateId b))
                  HANDSHAKE_ACTION (JObj [(''timestamp'', JNum (clock b))]) True (clock b))]
        \<and> awaitingReady (fst (step b (Invoke a d))) = awaitingReady b @ [(nextCall b, a, d)]
        \<and> handshake_state_of (fst (attemptHandshake_catch (fst (step b (Invoke a d))) err)) = FAILED
        \<and> snd (attemptHandshake_catch (fst (step b (Invoke a d))) err) =
            ?rej (awaitingReady b @ [(nextCall b, a, d)])"
    if "handshake_state_of b = FAILED"
  proof -
    have f: "\<not> isReady b" "\<not> readyPromise b" "maxHandshakeAttempts (options b) \<le> handshakeAttempts b"
      using that by (simp_all add: handshake_state_of_def split: if_splits)
    obtain b1 where b1: "step b (Invoke a d) =
        (b1, [PostMessage
               (RequestMessage (messageType b) (communicationId b) (fst (generateId b))
                  HANDSHAKE_ACTION (JObj [(''timestamp'', JNum (clock b))]) True (clock b))])"
      "\<not> isReady b1" "readyPromise b1" "awaitingReady b1 = awaitingReady b @ [(nextCall b, a, d)]"
      "options b1 = options b" "handshakeAttempts b1 = handshakeAttempts b"
      using f by (simp add: invoke_starts settle_quiet)
    have "maxHandshakeAttempts (options b1) \<le> handshakeAttempts b1 + 1"
      using f(3) b1(5,6) by simp
    then show ?thesis
      using ex [of b1] b1 by (simp add: handshake_state_of_def)
  qed
  show ?thesis
    using ex [of b] later again ready_only_by_probe [of b e] by blast
qed

text \<open>
  With a maximum of one attempt: the first timeout fails the waiting call; the next call
  probes again and is rejected when its probe is; and \<open>ex_probing\<close> becomes ready on the
  answer to its probe.
\<close>

theorem failed_state_witness:
  "\<not> isReady ex_single
   \<and> maxHandshakeAttempts (options ex_single) \<le> handshakeAttempts ex_single + 1
   \<and> handshake_state_of (fst (attemptHandshake_catch ex_single (Error MSG_HANDSHAKE_TIMEOUT))) = FAILED
   \<and> snd (attemptHandshake_catch ex_single (Error MSG_HANDSHAKE_TIMEOUT)) =
       [Reject (InvokeCall 0) (Error (MSG_HANDSHAKE_FAILED @ ''Error: '' @ MSG_HANDSHAKE_TIMEOUT))]
   \<and> handshake_state_of ex_failed = FAILED
   \<and> handshake_state_of (fst (step ex_failed (Invoke ''pong'' JNull))) = HANDSHAKING
   \<and> snd (step ex_failed (Invoke ''pong'' JNull)) = [PostMessage second_probe_a]
   \<and> snd (attemptHandshake_catch (fst (step ex_failed (Invoke ''pong'' JNull)))
        (Error MSG_DISCONNECTED)) =
       [Reject (InvokeCall 1) (Error (MSG_HANDSHAKE_FAILED @ ''Error: '' @ MSG_DISCONNECTED))]
   \<and> \<not> isReady ex_probing
   \<and> isReady (fst (step ex_probing (Message probe_reply_b)))
   \<and> (\<exists>p. table_get (pendingRequests ex_probing) (js_get probe_reply_b ''requestId'') = Some p
          \<and> completion p = HandshakeProbe)"
  using failed_state [of ex_single "Error MSG_HANDSHAKE_TIMEOUT" "[]" "''pong''" JNull Destroy]
    failed_state [of ex_failed "Error MSG_DISCONNECTED" "[]" "''pong''" JNull Destroy]
    failed_state [of ex_probing "Error MSG_DISCONNECTED" "[]" "''pong''" JNull
      "Message probe_reply_b"]
  by (simp add: failed_examples second_probe_a_def MSG_HANDSHAKE_TIMEOUT_def MSG_DISCONNECTED_def)
     blast

subsection \<open>C3: one handshake attempt\<close>

text \<open>
  C3. Each handshake attempt sends exactly one correlated request under the reserved
  handshake action and arms its timer with \<open>handshakeTimeout\<close> (500 ms by default, the
  default \<open>requestTimeout\<close> being 30000 ms). When the probe is rejected the rest of the
  attempt is the \<^verbatim>\<open>catch\<close> block: the counter goes up by one; if it has reached
  \<open>maxHandshakeAttempts\<close> every caller awaiting readiness is rejected with an error whose
  message wraps the text of the probe's error and no timer is armed; otherwise exactly
  one timer for the next attempt is armed, with delay \<open>handshakeRetryInterval\<close>. When the
  probe is resolved the bridge is ready and the retry timer it remembered is not armed.
\<close>

theorem handshake_attempt:
  "attemptHandshake b = sendSingleHandshakeRequest b
   \<and> sendSingleHandshakeRequest b =
     (b\<lparr>rand_ctr := Suc (rand_ctr b),
        timers := timers b @ [(nextTimer b, HandshakeTimedOut (fst (generateId b)),
                               handshakeTimeout (options b))],
        nextTimer := Suc (nextTimer b),
        pendingRequests :=
          AList.update (fst (generateId b)) \<lparr>completion = HandshakeProbe, timeout = nextTimer b\<rparr>
            (pendingRequests b)\<rparr>,
      [PostMessage
         (RequestMessage (messageType b) (communicationId b) (fst (generateId b)) HANDSHAKE_ACTION
            (JObj [(''timestamp'', JNum (clock b))]) True (clock b))])
   \<and> handshakeTimeout (options (WebBridge cid no_options now rnd)) = 500
   \<and> requestTimeout (options (WebBridge cid no_options now rnd)) = 30000
   \<and> microtasks b [Reject HandshakeProbe err] = attemptHandshake_catch b err
   \<and> handshakeAttempts (fst (attemptHandshake_catch b err)) = handshakeAttempts b + 1
   \<and> (maxHandshakeAttempts (options b) \<le> handshakeAttempts b + 1 \<longrightarrow>
        attemptHandshake_catch b err =
          (b\<lparr>handshakeAttempts := handshakeAttempts b + 1,
             timers := (case handshakeRetryTimer b of None \<Rightarrow> timers b
                        | Some h \<Rightarrow> AList.delete h (timers b)),
             handshakeRetryTimer := None, readyPromise := False, awaitingReady := []\<rparr>,
           map (\<lambda>(call, action, data).
                  Reject (InvokeCall call) (Error (MSG_HANDSHAKE_FAILED @ Error_toString err)))
             (awaitingReady b)))
   \<and> (handshakeAttempts b + 1 < maxHandshakeAttempts (options b) \<longrightarrow>
        attemptHandshake_catch b err =
          (b\<lparr>handshakeAttempts := handshakeAttempts b + 1,
             timers := timers b @ [(nextTimer b, AttemptHandshake,
                                    handshakeRetryInterval (options b))],
             nextTimer := Suc (nextTimer b),
             handshakeRetryTimer := Some (nextTimer b)\<rparr>, []))
   \<and> microtasks b [Resolve HandshakeProbe v] = attemptHandshake_try b
   \<and> isReady (fst (attemptHandshake_try b))
   \<and> handshakeRetryTimer (fst (attemptHandshake_try b)) = None
   \<and> (\<forall>h d. handshakeRetryTimer b = Some h \<longrightarrow>
          (h, AttemptHandshake, d) \<notin> set (timers (fst (attemptHandshake_try b))))"
proof -
  have "handshakeAttempts (fst (attemptHandshake_catch b err)) = handshakeAttempts b + 1"
    using catch_exhausted [of b err] catch_retry [of b err]
    by (cases "maxHandshakeAttempts (options b) \<le> handshakeAttempts b + 1") simp_all
  moreover have "options (WebBridge cid no_options now rnd) = default_options"
    by (simp add: WebBridge_def no_options_def setupHandshakeHandler_def
        setupMessageListener_def handle_def assign_options_def)
  ultimately show ?thesis
    using try_ready [of b] try_cancels [of b]
    by (simp add: handshake_probe catch_exhausted catch_retry default_options_def case_prod_beta
        attemptHandshake_def)
qed

text \<open>
  The three hypotheses at work: a first failure out of ten is retried after 1000 ms, a
  first failure out of one rejects the waiting call, and a success after a retry leaves
  the retry timer 2 unarmed.
\<close>

theorem handshake_attempt_witness:
  "handshakeAttempts ex_probing + 1 < maxHandshakeAttempts (options ex_probing)
   \<and> snd (attemptHandshake_catch ex_probing (Error MSG_HANDSHAKE_TIMEOUT)) = []
   \<and> timers (fst (attemptHandshake_catch ex_probing (Error MSG_HANDSHAKE_TIMEOUT))) =
       [(1, HandshakeTimedOut ''1000-r0'', 500), (2, AttemptHandshake, 1000)]
   \<and> maxHandshakeAttempts (options ex_single) \<le> handshakeAttempts ex_single + 1
   \<and> snd (attemptHandshake_catch ex_single (Error MSG_HANDSHAKE_TIMEOUT)) =
       [Reject (InvokeCall 0)
          (Error (MSG_HANDSHAKE_FAILED @ ''Error: '' @ MSG_HANDSHAKE_TIMEOUT))]
   \<and> handshakeRetryTimer ex_retrying = Some 2
   \<and> (2, AttemptHandshake, 1000) \<notin> set (timers (fst (attemptHandshake_try ex_retrying)))"
  using handshake_attempt [of ex_probing undefined undefined undefined "Error MSG_HANDSHAKE_TIMEOUT"]
    handshake_attempt [of ex_single undefined undefined undefined "Error MSG_HANDSHAKE_TIMEOUT"]
    handshake_attempt [of ex_retrying]
  by (simp add: ex_probing_fields ex_single_fields ex_retrying_fields MSG_HANDSHAKE_TIMEOUT_def)

subsection \<open>C4: resolving a pending entry\<close>

text \<open>
  C4, with the error text the code makes. A response whose \<open>requestId\<close> has no pending
  entry is dropped: no effect, no change. When the entry exists, its timer is cancelled and
  the entry is removed, so the same response delivered again is dropped; and exactly one
  of its callbacks is called: \<^verbatim>\<open>resolve\<close> with \<open>data\<close> when \<open>success\<close> is truthy,
  otherwise \<^verbatim>\<open>reject\<close>, with an error made of \<open>error\<close> when \<open>error\<close> is a non-empty
  string, and with the "unknown error" text when \<open>error\<close> is missing or is the empty
  string. The keys of the table stay distinct along every run: an identifier never has two
  entries.
\<close>

theorem response_correlation:
  "(table_get (pendingRequests b) (js_get msg ''requestId'') = None \<longrightarrow>
      handleResponseMessage b msg = (b, []))
   \<and> (\<forall>p. table_get (pendingRequests b) (js_get msg ''requestId'') = Some p \<longrightarrow>
        (case handleResponseMessage b msg of (b', es) \<Rightarrow>
           map_of (timers b') (timeout p) = None
           \<and> table_get (pendingRequests b') (js_get msg ''requestId'') = None
           \<and> handleResponseMessage b' msg = (b', [])
           \<and> (truthy (js_get msg ''success'') \<longrightarrow>
                es = [Resolve (completion p) (js_get msg ''data'')])
           \<and> (\<not> truthy (js_get msg ''success'')
                \<and> (js_get msg ''error'' = JUndefined \<or> js_get msg ''error'' = JStr []) \<longrightarrow>
                es = [Reject (completion p) (Error MSG_UNKNOWN_ERROR)])
           \<and> (\<forall>e. \<not> truthy (js_get msg ''success'') \<and> js_get msg ''error'' = JStr e \<and> e \<noteq> [] \<longrightarrow>
                es = [Reject (completion p) (Error e)])))
   \<and> (distinct (map fst (pendingRequests b)) \<longrightarrow>
        distinct (map fst (pendingRequests (fst (run b evs)))))"
proof -
  have "map_of (AList.delete h ts) h = None" for h :: nat and ts :: "(nat \<times> timer_callback \<times> int) list"
    by (simp add: delete_conv')
  moreover have "table_get (table_delete t k) k = None" for t :: "(string \<times> pending) list" and k
    by (cases k) (simp_all add: table_get_def table_delete_def delete_conv')
  moreover have "distinct (map fst (pendingRequests b)) \<longrightarrow>
        distinct (map fst (pendingRequests (fst (run b evs))))"
    using evolves_run [of b evs] by (simp add: evolves_def)
  ultimately show ?thesis
    by (auto simp: handleResponseMessage_eq)
qed

text \<open>
  An unmatched answer is dropped by \<open>bridge_a\<close>; the pending call of \<open>ex_ready\<close> is
  resolved once by a success, and would be rejected with the "unknown error" text by a
  failure that carries no error and with the text \<open>boom\<close> by a failure that carries it.
\<close>

theorem response_correlation_witness:
  "handleResponseMessage bridge_a pong_reply = (bridge_a, [])
   \<and> table_get (pendingRequests ex_ready) (js_get pong_reply ''requestId'') =
       Some \<lparr>completion = InvokeCall 0, timeout = 2\<rparr>
   \<and> snd (handleResponseMessage ex_ready pong_reply) = [Resolve (InvokeCall 0) (JStr ''pong'')]
   \<and> map_of (timers (fst (handleResponseMessage ex_ready pong_reply))) 2 = None
   \<and> handleResponseMessage (fst (handleResponseMessage ex_ready pong_reply)) pong_reply =
       (fst (handleResponseMessage ex_ready pong_reply), [])
   \<and> snd (handleResponseMessage ex_ready failure_reply) =
       [Reject (InvokeCall 0) (Error MSG_UNKNOWN_ERROR)]
   \<and> snd (handleResponseMessage ex_ready error_reply) = [Reject (InvokeCall 0) (Error ''boom'')]
   \<and> distinct (map fst (pendingRequests bridge_a))
   \<and> distinct (map fst (pendingRequests
        (fst (run bridge_a [Invoke ''ping'' JNull, Message probe_reply_b, Invoke ''pong'' JNull]))))"
  using response_correlation [of bridge_a pong_reply
      "[Invoke ''ping'' JNull, Message probe_reply_b, Invoke ''pong'' JNull]"]
    response_correlation [of ex_ready pong_reply "[]"]
    response_correlation [of ex_ready failure_reply "[]"]
    response_correlation [of ex_ready error_reply "[]"]
  by (simp add: ex_ready_fields bridge_a_fields case_prod_beta pong_reply_def failure_reply_def
        error_reply_def ResponseMessage_def table_get_def)

text \<open>
  C4 as stated makes the error of \<open>error\<close> whenever the field is present. A failure whose
  \<open>error\<close> is the empty string rejects the pending call of \<open>ex_ready\<close> with the "unknown
  error" text, not with an error of the empty text (\<^verbatim>\<open>error || ...\<close> takes the second
  operand for every falsy first one).
\<close>

theorem response_correlation_counterexample:
  "table_get (pendingRequests ex_ready) (js_get empty_error_reply ''requestId'') =
     Some \<lparr>completion = InvokeCall 0, timeout = 2\<rparr>
   \<and> js_get empty_error_reply ''success'' = JBool False
   \<and> js_get empty_error_reply ''error'' = JStr []
   \<and> snd (handleResponseMessage ex_ready empty_error_reply) =
       [Reject (InvokeCall 0) (Error MSG_UNKNOWN_ERROR)]
   \<and> Error MSG_UNKNOWN_ERROR \<noteq> Error []"
  by (simp add: handleResponseMessage_eq ex_ready_fields empty_error_reply_def ResponseMessage_def
      table_get_def MSG_UNKNOWN_ERROR_def)

subsection \<open>C5: a request without a handler\<close>




subsection \<open>C6: the two gates of the dispatcher\<close>

text \<open>
  C6. A value that is falsy, is not an object or whose \<open>type\<close> is not the configured
  message type is ignored: no handler is called, nothing is sent, the bridge is unchanged.
  So is an envelope whose \<open>communicationId\<close> is not allowed, where an empty allow-list
  allows every identifier and a non-empty one exactly its members. An envelope that passes
  both gates goes through the \<open>action\<close> check and then the \<open>requestId\<close> check, each on its
  own: with both fields it is handled as a request and then as a response.
\<close>

theorem dispatcher_gates:
  "(\<not> truthy msg \<or> \<not> typeof_object msg \<or> js_get msg ''type'' \<noteq> JStr (messageType b)
      \<longrightarrow> handleMessage b msg = (b, []))
   \<and> (\<not> isAllowedId b (js_get msg ''communicationId'') \<longrightarrow> handleMessage b msg = (b, []))
   \<and> (allowedIds b = {} \<longrightarrow> isAllowedId b cid)
   \<and> (allowedIds b \<noteq> {} \<longrightarrow> isAllowedId b cid = (\<exists>s \<in> allowedIds b. cid = JStr s))
   \<and> (truthy msg \<and> typeof_object msg \<and> js_get msg ''type'' = JStr (messageType b)
        \<and> isAllowedId b (js_get msg ''communicationId'')
      \<longrightarrow> handleMessage b msg =
           (if truthy (js_get msg ''action'')
            then if truthy (js_get msg ''requestId'')
                 then (let (b1, e1) = handleRequestMessage b msg;
                           (b2, e2) = handleResponseMessage b1 msg
                       in (b2, e1 @ e2))
                 else handleRequestMessage b msg
            else if truthy (js_get msg ''requestId'') then handleResponseMessage b msg
                 else (b, [])))"
  by (auto simp: handleMessage_def isAllowedId_def split: jsval.splits prod.splits)

text \<open>
  A string, an object of another type and an envelope from a sender that is not allowed
  are ignored; the empty allow-list admits \<open>c\<close>, the list \<open>[b]\<close> admits \<open>b\<close> and not \<open>c\<close>;
  an envelope with both fields is handled twice.
\<close>

theorem dispatcher_gates_witness:
  "handleMessage bridge_a (JStr ''hello'') = (bridge_a, [])
   \<and> handleMessage bridge_a (JObj [(''type'', JStr ''other''), (''action'', JStr ''ping'')])
       = (bridge_a, [])
   \<and> handleMessage bridge_only_b
        (RequestMessage ''web-bridge'' ''c'' ''m1'' ''ping'' JNull True 1000) = (bridge_only_b, [])
   \<and> isAllowedId bridge_a (JStr ''c'')
   \<and> isAllowedId bridge_only_b (JStr ''b'') \<and> \<not> isAllowedId bridge_only_b (JStr ''c'')
   \<and> handleMessage bridge_a msg_both =
       (let (b1, e1) = handleRequestMessage bridge_a msg_both;
            (b2, e2) = handleResponseMessage b1 msg_both
        in (b2, e1 @ e2))"
  using dispatcher_gates [of "JStr ''hello''" bridge_a]
    dispatcher_gates [of "JObj [(''type'', JStr ''other''), (''action'', JStr ''ping'')]" bridge_a]
    dispatcher_gates [of "RequestMessage ''web-bridge'' ''c'' ''m1'' ''ping'' JNull True 1000"
      bridge_only_b "JStr ''b''"]
    dispatcher_gates [of msg_both bridge_a "JStr ''c''"]
    dispatcher_gates [of msg_both bridge_only_b "JStr ''c''"]
  by (simp add: bridge_a_fields bridge_only_b_fields msg_both_def RequestMessage_def)

subsection \<open>C7: teardown\<close>

text \<open>
  C7, at a bridge torn down while its first handshake probe is pending (\<open>ex_probing\<close>:
  \<^verbatim>\<open>invoke("ping", null)\<close> was called and no answer has come). \<^verbatim>\<open>destroy()\<close> rejects the
  probe and leaves no timer armed when it returns. The rejection of the probe then runs the
  \<^verbatim>\<open>catch\<close> block of \<^verbatim>\<open>attemptHandshake\<close>, which counts a failed attempt and arms the
  retry timer 2: after the step the retry timer is armed and remembered, and the call of
  \<^verbatim>\<open>invoke\<close> still awaits readiness. When that timer fires the bridge posts a second
  probe, and a second \<^verbatim>\<open>destroy()\<close> rejects that probe and leaves the retry timer 4
  armed and the counter at 2: the bridge is not in the state the first teardown left.
\<close>

theorem destroy_rearms_retry:
  "pendingRequests ex_probing = [(''1000-r0'', \<lparr>completion = HandshakeProbe, timeout = 1\<rparr>)]
   \<and> timers ex_probing = [(1, HandshakeTimedOut ''1000-r0'', 500)]
   \<and> handshakeRetryTimer ex_probing = None
   \<and> snd (destroy ex_probing) = [Reject HandshakeProbe (Error MSG_DISCONNECTED)]
   \<and> timers (fst (destroy ex_probing)) = []
   \<and> snd (step ex_probing Destroy) = [Reject HandshakeProbe (Error MSG_DISCONNECTED)]
   \<and> timers (fst (step ex_probing Destroy)) = [(2, AttemptHandshake, 1000)]
   \<and> handshakeRetryTimer (fst (step ex_probing Destroy)) = Some 2
   \<and> handshakeAttempts (fst (step ex_probing Destroy)) = 1
   \<and> awaitingReady (fst (step ex_probing Destroy)) = [(0, ''ping'', JNull)]
   \<and> snd (run ex_probing [Destroy, TimerFires 2, Destroy]) =
       [Reject HandshakeProbe (Error MSG_DISCONNECTED), PostMessage second_probe_a,
        Reject HandshakeProbe (Error MSG_DISCONNECTED)]
   \<and> timers (fst (run ex_probing [Destroy, TimerFires 2, Destroy])) = [(4, AttemptHandshake, 1000)]
   \<and> handshakeRetryTimer (fst (run ex_probing [Destroy, TimerFires 2, Destroy])) = Some 4
   \<and> handshakeAttempts (fst (run ex_probing [Destroy, TimerFires 2, Destroy])) = 2"
  by (intro conjI) code_simp+

subsection \<open>C8: one handshake sequence for all callers\<close>

text \<open>
  C8. While a handshake is in progress \<^verbatim>\<open>ensureReady\<close> starts nothing and its caller
  awaits the sequence in progress. Any number of calls of \<^verbatim>\<open>invoke\<close> on a bridge that
  is not ready and has no sequence in progress put exactly one envelope on the transport,
  the handshake request; and a retry posts exactly one handshake request however many
  calls are waiting. Along every run from the constructor at most one handshake timer is
  armed (at most one sequence is in flight), and when one is, \<^verbatim>\<open>readyPromise\<close> is set.
\<close>

theorem shared_handshake:
  "(\<not> isReady b \<and> readyPromise b \<longrightarrow> ensureReady b = (b, [], AwaitReady))
   \<and> (\<not> isReady b \<and> \<not> readyPromise b \<longrightarrow>
        snd (run b (Invoke a d # map (\<lambda>c. Invoke (fst c) (snd c)) cs)) =
          [PostMessage
             (RequestMessage (messageType b) (communicationId b) (fst (generateId b))
                HANDSHAKE_ACTION (JObj [(''timestamp'', JNum (clock b))]) True (clock b))])
   \<and> (map_of (timers b) h = Some (AttemptHandshake, dl) \<longrightarrow>
        snd (step b (TimerFires h)) =
          [PostMessage
             (RequestMessage (messageType b) (communicationId b) (fst (generateId b))
                HANDSHAKE_ACTION (JObj [(''timestamp'', JNum (clock b))]) True (clock b))])
   \<and> in_flight (fst (run (WebBridge cid opts now rnd) evs)) \<le> 1
   \<and> (in_flight (fst (run (WebBridge cid opts now rnd) evs)) = 1 \<longrightarrow>
        readyPromise (fst (run (WebBridge cid opts now rnd) evs)))"
proof -
  let ?probe = "PostMessage
             (RequestMessage (messageType b) (communicationId b) (fst (generateId b))
                HANDSHAKE_ACTION (JObj [(''timestamp'', JNum (clock b))]) True (clock b))"
  have 1: "ensureReady b = (b, [], AwaitReady)" if "\<not> isReady b" "readyPromise b"
    using that by (simp add: ensureReady_def)
  have 2: "snd (run b (Invoke a d # map (\<lambda>c. Invoke (fst c) (snd c)) cs)) = [?probe]"
    if n: "\<not> isReady b" "\<not> readyPromise b"
  proof -
    obtain b1 where b1: "invoke b a d = (b1, [?probe])" "\<not> isReady b1" "readyPromise b1"
      using n by (simp add: invoke_starts)
    then have "step b (Invoke a d) = (b1, [?probe])"
      by (simp add: settle_quiet)
    then show ?thesis
      using run_waiting [OF b1(2,3), of cs] by (simp add: case_prod_beta)
  qed
  have 3: "snd (step b (TimerFires h)) = [?probe]" if "map_of (timers b) h = Some (AttemptHandshake, dl)"
    using that
    by (simp add: timer_fires_def attemptHandshake_def handshake_probe Let_def generateId_def
        settle_quiet)
  have 4: "phases (fst (run (WebBridge cid opts now rnd) evs))"
    by (intro run_phases WebBridge_phases)
  show ?thesis
    using 1 2 3 phases_in_flight [OF 4] by blast
qed

text \<open>
  Three calls before readiness share the probe of the first; the retry of \<open>ex_retry_wait\<close>
  posts the second probe; one sequence is in flight while \<open>ex_probing\<close> waits.
\<close>

theorem shared_handshake_witness:
  "\<not> isReady ex_probing \<and> readyPromise ex_probing
   \<and> ensureReady ex_probing = (ex_probing, [], AwaitReady)
   \<and> \<not> isReady bridge_a \<and> \<not> readyPromise bridge_a
   \<and> snd (run bridge_a (Invoke ''ping'' JNull # map (\<lambda>c. Invoke (fst c) (snd c)) three_calls)) =
       [PostMessage probe_a]
   \<and> map_of (timers ex_retry_wait) 2 = Some (AttemptHandshake, 1000)
   \<and> snd (step ex_retry_wait (TimerFires 2)) = [PostMessage second_probe_a]
   \<and> in_flight (fst (run bridge_a [Invoke ''ping'' JNull])) = 1
   \<and> readyPromise (fst (run bridge_a [Invoke ''ping'' JNull]))"
  using shared_handshake [of ex_probing]
    shared_handshake [of bridge_a "''ping''" JNull three_calls]
    shared_handshake [of ex_retry_wait _ _ _ 2 1000 "''a''" no_options 1000
      "\<lambda>n. ''r'' @ show_nat n" "[Invoke ''ping'' JNull]", folded bridge_a_def]
  by (simp add: shared_examples bridge_a_fields probe_a_def second_probe_a_def case_prod_beta
      ex_probing_run)

subsection \<open>C9: a bridge answers its own probe\<close>

text \<open>
  C9. The dispatcher compares the sender's identifier with the allow-list only: a bridge
  whose allow-list is empty or holds its own identifier admits its own envelopes. So a
  bridge fresh from the constructor, when the transport hands it its own broadcasts,
  answers its own handshake probe through the pre-registered handler and becomes ready
  on its own answer; the call that started the handshake is then sent.
\<close>

theorem self_handshake:
  "(allowedIds b = {} \<or> communicationId b \<in> allowedIds b \<longrightarrow>
      isAllowedId b (JStr (communicationId b)))
   \<and> (allowedIds (WebBridge cid opts now rnd) = {} \<or> cid \<in> allowedIds (WebBridge cid opts now rnd) \<longrightarrow>
       (let b0 = WebBridge cid opts now rnd;
            probe = RequestMessage (messageType b0) cid (show_int now @ ''-'' @ rnd 0)
                      HANDSHAKE_ACTION (JObj [(''timestamp'', JNum now)]) True now;
            reply = ResponseMessage (messageType b0) cid (show_int now @ ''-'' @ rnd 1)
                      (JStr (show_int now @ ''-'' @ rnd 0)) True
                      (JObj [(''success'', JBool True), (''timestamp'', JNum now)]) JUndefined now;
            (b1, e1) = step b0 (Invoke a d);
            (b2, e2) = step b1 (Message probe);
            (b3, e3) = step b2 (Message reply)
        in e1 = [PostMessage probe]
           \<and> e2 = [CallHandler (JStr HANDSHAKE_ACTION) (JObj [(''timestamp'', JNum now)]),
                   PostMessage reply]
           \<and> \<not> isReady b2
           \<and> e3 = [Resolve HandshakeProbe
                      (JObj [(''success'', JBool True), (''timestamp'', JNum now)]),
                   PostMessage
                     (RequestMessage (messageType b0) cid (show_int now @ ''-'' @ rnd 2) a d True
                        now)]
           \<and> isReady b3))"
proof -
  have 1: "isAllowedId b (JStr (communicationId b))"
    if "allowedIds b = {} \<or> communicationId b \<in> allowedIds b"
    using that by (auto simp: isAllowedId_def)
  show ?thesis
    using 1 self_handshake_run [OF WebBridge_eq [of cid opts now rnd], of a d]
    by (simp add: Let_def)
qed

text \<open>\<open>bridge_a\<close>, alone on the channel, is ready after hearing its probe and its answer.\<close>

theorem self_handshake_witness:
  "allowedIds bridge_a = {}
   \<and> isAllowedId bridge_a (JStr ''a'')
   \<and> isReady (fst (run bridge_a [Invoke ''ping'' JNull, Message probe_a, Message probe_reply_a]))"
  using self_handshake [of bridge_a "''a''" no_options 1000 "\<lambda>n. ''r'' @ show_nat n" "''ping''" JNull,
      folded bridge_a_def]
  by (simp add: bridge_a_fields Let_def case_prod_beta show_examples probe_a_def probe_reply_a_def)

subsection \<open>C10: the attempt counter is never reset\<close>

text \<open>
  C10. No step lowers \<open>handshakeAttempts\<close> or changes \<open>maxHandshakeAttempts\<close>, and the
  \<^verbatim>\<open>try\<close> block of a successful attempt leaves the counter as it is. So once the counter
  has reached the maximum it stays there along every run, and in every later state the
  first failure of a probe rejects the callers awaiting readiness at once and arms no
  retry timer: a later handshake sequence makes one probe.
\<close>

theorem attempts_never_reset:
  "handshakeAttempts b \<le> handshakeAttempts (fst (step b e))
   \<and> maxHandshakeAttempts (options (fst (step b e))) = maxHandshakeAttempts (options b)
   \<and> handshakeAttempts (fst (attemptHandshake_try b)) = handshakeAttempts b
   \<and> handshakeAttempts b \<le> handshakeAttempts (fst (run b evs))
   \<and> (maxHandshakeAttempts (options b) \<le> handshakeAttempts b \<longrightarrow>
        maxHandshakeAttempts (options (fst (run b evs))) \<le> handshakeAttempts (fst (run b evs))
        \<and> snd (attemptHandshake_catch (fst (run b evs)) err) =
            map (\<lambda>(call, action, data).
                   Reject (InvokeCall call) (Error (MSG_HANDSHAKE_FAILED @ Error_toString err)))
              (awaitingReady (fst (run b evs)))
        \<and> set (timers (fst (attemptHandshake_catch (fst (run b evs)) err)))
            \<subseteq> set (timers (fst (run b evs))))"
proof -
  have r: "evolves b (fst (run b evs))" by (rule evolves_run)
  have s: "evolves b (fst (step b e))" by (rule evolves_step)
  have "set (AList.delete h ts) \<subseteq> set ts" for h :: nat and ts :: "(nat \<times> timer_callback \<times> int) list"
    by (auto simp: AList.delete_eq)
  then have c: "snd (attemptHandshake_catch c err) =
            map (\<lambda>(call, action, data).
                   Reject (InvokeCall call) (Error (MSG_HANDSHAKE_FAILED @ Error_toString err)))
              (awaitingReady c)
        \<and> set (timers (fst (attemptHandshake_catch c err))) \<subseteq> set (timers c)"
    if "maxHandshakeAttempts (options c) \<le> handshakeAttempts c" for c
    using that catch_exhausted [of c err] by (cases "handshakeRetryTimer c") simp_all
  show ?thesis
    using r s c [of "fst (run b evs)"] try_ready [of b]
    by (simp add: evolves_def)
qed

text \<open>
  With a maximum of one attempt: after the first sequence failed, a second call starts a
  new sequence, whose first failure rejects it.
\<close>

theorem attempts_never_reset_witness:
  "maxHandshakeAttempts (options ex_failed) \<le> handshakeAttempts ex_failed
   \<and> snd (attemptHandshake_catch ex_failed_waiting (Error MSG_HANDSHAKE_TIMEOUT)) =
       [Reject (InvokeCall 1) (Error (MSG_HANDSHAKE_FAILED @ ''Error: '' @ MSG_HANDSHAKE_TIMEOUT))]"
  using attempts_never_reset [of ex_failed undefined "[Invoke ''pong'' JNull]"
      "Error MSG_HANDSHAKE_TIMEOUT", folded ex_failed_waiting_def]
  by (simp add: ex_failed_fields MSG_HANDSHAKE_TIMEOUT_def)


end
